theory Spec2Isabelle
  imports Complex_Main "HOL-Library.Word"
begin

unbundle bit_operations_syntax

section \<open>Python values that cross the program's interfaces\<close>

text \<open>
  Every value the program handles at run time comes out of \<^verbatim>\<open>json.loads\<close> or
  \<^verbatim>\<open>response.json()\<close>, so it is a JSON value. A Python float is a finite
  number or one of the three specials the decoder accepts; the finite ones are kept as
  rationals, which is exact for the only things the program does with them (truth value and
  comparison with an integer constant).
\<close>

datatype pyfloat = Finite rat | PosInf | NegInf | NaN

datatype json =
    JNull
  | JBool bool
  | JInt int
  | JFloat pyfloat
  | JString string
  | JArray "json list"
  | JObject "(string \<times> json) list"

text \<open>
  Exceptions: only subclasses of \<^verbatim>\<open>Exception\<close> are modelled (task cancellation
  and interpreter exit are not). The string is \<^verbatim>\<open>str(e)\<close>; for the errors the
  interpreter itself raises it is the text of CPython 3.11.
\<close>

datatype exc_class =
    AttributeError | TypeError | KeyError | IndexError | ValueError
  | RequestException | BinasciiError | AudioopError | ConnectionError
  | WebSocketDisconnect

datatype exc = Exc exc_class string

fun exc_str :: "exc \<Rightarrow> string" where
  "exc_str (Exc c m) = m"

fun exc_cls :: "exc \<Rightarrow> exc_class" where
  "exc_cls (Exc c m) = c"

definition ebind :: "exc + 'a \<Rightarrow> ('a \<Rightarrow> exc + 'b) \<Rightarrow> exc + 'b" where
  "ebind m f = (case m of Inl e \<Rightarrow> Inl e | Inr v \<Rightarrow> f v)"

definition quote :: string where
  "quote = [CHR 0x27]"

fun type_name :: "json \<Rightarrow> string" where
  "type_name JNull = ''NoneType''"
| "type_name (JBool b) = ''bool''"
| "type_name (JInt i) = ''int''"
| "type_name (JFloat f) = ''float''"
| "type_name (JString s) = ''str''"
| "type_name (JArray xs) = ''list''"
| "type_name (JObject kvs) = ''dict''"

text \<open>Truth value of a value in \<^verbatim>\<open>if v:\<close> and \<^verbatim>\<open>not v\<close>.\<close>

fun truthy :: "json \<Rightarrow> bool" where
  "truthy JNull = False"
| "truthy (JBool b) = b"
| "truthy (JInt i) = (i \<noteq> 0)"
| "truthy (JFloat f) = (f \<noteq> Finite 0)"
| "truthy (JString s) = (s \<noteq> [])"
| "truthy (JArray xs) = (xs \<noteq> [])"
| "truthy (JObject kvs) = (kvs \<noteq> [])"

text \<open>\<^verbatim>\<open>d.get(k, default)\<close> on a dict, and on any value (only a dict has the method).\<close>

definition dict_get :: "(string \<times> json) list \<Rightarrow> string \<Rightarrow> json \<Rightarrow> json" where
  "dict_get kvs k d = (case map_of kvs k of None \<Rightarrow> d | Some v \<Rightarrow> v)"

fun py_get :: "json \<Rightarrow> string \<Rightarrow> json \<Rightarrow> exc + json" where
  "py_get (JObject kvs) k d = Inr (dict_get kvs k d)"
| "py_get v k d =
     Inl (Exc AttributeError (quote @ type_name v @ quote @ '' object has no attribute '' @ quote @ ''get'' @ quote))"

text \<open>\<^verbatim>\<open>v[k]\<close> with a string key.\<close>

fun subscript_key :: "json \<Rightarrow> string \<Rightarrow> exc + json" where
  "subscript_key (JObject kvs) k =
     (case map_of kvs k of None \<Rightarrow> Inl (Exc KeyError (quote @ k @ quote)) | Some v \<Rightarrow> Inr v)"
| "subscript_key (JArray xs) k =
     Inl (Exc TypeError ''list indices must be integers or slices, not str'')"
| "subscript_key (JString s) k =
     Inl (Exc TypeError (''string indices must be integers, not '' @ quote @ ''str'' @ quote))"
| "subscript_key v k =
     Inl (Exc TypeError (quote @ type_name v @ quote @ '' object is not subscriptable''))"

text \<open>\<^verbatim>\<open>v[0]\<close>. The keys of a decoded JSON object are strings, so 0 is never one.\<close>

fun subscript_zero :: "json \<Rightarrow> exc + json" where
  "subscript_zero (JArray xs) =
     (case xs of [] \<Rightarrow> Inl (Exc IndexError ''list index out of range'') | x # _ \<Rightarrow> Inr x)"
| "subscript_zero (JString s) =
     (case s of [] \<Rightarrow> Inl (Exc IndexError ''string index out of range'') | c # _ \<Rightarrow> Inr (JString [c]))"
| "subscript_zero (JObject kvs) = Inl (Exc KeyError ''0'')"
| "subscript_zero v =
     Inl (Exc TypeError (quote @ type_name v @ quote @ '' object is not subscriptable''))"

text \<open>
  The items \<^verbatim>\<open>for prop in v\<close> visits: the elements of a list, the keys of a
  dict. A string is iterated by code point; the model's strings are byte lists, so this
  clause is exact on ASCII text.
\<close>

fun py_iter :: "json \<Rightarrow> exc + json list" where
  "py_iter (JArray xs) = Inr xs"
| "py_iter (JObject kvs) = Inr (map (\<lambda>kv. JString (fst kv)) kvs)"
| "py_iter (JString s) = Inr (map (\<lambda>c. JString [c]) s)"
| "py_iter v = Inl (Exc TypeError (quote @ type_name v @ quote @ '' object is not iterable''))"

section \<open>The search tools (real_estate_tools.py)\<close>

datatype http_response = Response (status_code: int) (json_body: "exc + json")

text \<open>
  The request bodies the two tools post. \<^verbatim>\<open>vectorQueries\<close> holds the embedding
  when one was obtained; the constant fields of the payload are left out.
\<close>

record search_payload =
  search :: json
  top :: nat
  filter_expr :: "string option"
  vectorQueries :: "json option"

text \<open>
  What the program does to the outside world, in the order it does it: commands on the
  agent connection, frames on the client channel, tasks it spawns, and the error lines it
  logs. \<open>ConversationItemCreate call_id output\<close> is the
  \<^verbatim>\<open>function_call_output\<close> item given to \<^verbatim>\<open>connection.send\<close>.
\<close>

type_synonym byte = "8 word"

datatype action =
    ConversationItemCreate string json
  | ResponseCreate
  | ResponseCancel
  | InputAudioAppend json
  | InputAudioCommit
  | ClientSendJson json
  | ClientClose
  | CreateTask string "string option" string
  | LogError string

text \<open>
  The process environment and the collaborators: the configuration read at import time;
  the two HTTP endpoints as functions from the request to what \<^verbatim>\<open>requests.post\<close>
  does (raise, or return a response); the standard library's \<^verbatim>\<open>str()\<close>,
  \<^verbatim>\<open>json.loads\<close>, \<^verbatim>\<open>base64.b64decode\<close> and
  \<^verbatim>\<open>base64.b64encode(...).decode()\<close>; and \<open>io_fault\<close>, which says whether
  an awaited command on the connection or the client channel raises, given what was done
  before it.
\<close>

record env =
  SEARCH_ENDPOINT :: "string option"
  SEARCH_API_KEY :: "string option"
  OPENAI_ENDPOINT :: "string option"
  OPENAI_API_KEY :: "string option"
  embedding_post :: "json \<Rightarrow> exc + http_response"
  search_post :: "search_payload \<Rightarrow> exc + http_response"
  py_str :: "json \<Rightarrow> string"
  json_loads :: "string \<Rightarrow> exc + json"
  b64decode :: "json \<Rightarrow> exc + byte list"
  b64encode :: "byte list \<Rightarrow> string"
  io_fault :: "action list \<Rightarrow> action \<Rightarrow> exc option"

text \<open>\<^verbatim>\<open>not X\<close> for a configuration value: unset or empty.\<close>

fun unset :: "string option \<Rightarrow> bool" where
  "unset None = True"
| "unset (Some s) = (s = [])"

text \<open>The value returned is the embedding, or \<open>JNull\<close> for Python's None.\<close>

definition generate_embedding :: "env \<Rightarrow> json \<Rightarrow> json" where
  "generate_embedding E txt =
     (if unset (OPENAI_ENDPOINT E) \<or> unset (OPENAI_API_KEY E) then JNull
      else
        (case
           (case embedding_post E txt of
              Inl e \<Rightarrow> Inl e
            | Inr response \<Rightarrow>
                if status_code response = 200 then
                  ebind (json_body response) (\<lambda>result.
                  ebind (subscript_key result ''data'') (\<lambda>d.
                  ebind (subscript_zero d) (\<lambda>d0.
                  subscript_key d0 ''embedding'')))
                else Inr JNull)
         of Inl e \<Rightarrow> JNull | Inr v \<Rightarrow> v))"

definition join_and :: "string list \<Rightarrow> string" where
  "join_and fs = (case fs of [] \<Rightarrow> [] | f # rest \<Rightarrow> f @ concat (map (\<lambda>g. '' and '' @ g) rest))"

definition build_filters :: "env \<Rightarrow> json \<Rightarrow> json \<Rightarrow> json \<Rightarrow> json \<Rightarrow> json \<Rightarrow> string list" where
  "build_filters E property_type location min_price max_price bedrooms =
     (if truthy property_type
        then [''property_type eq '' @ quote @ py_str E property_type @ quote] else [])
   @ (if truthy location
        then [''search.ismatch('' @ quote @ py_str E location @ quote @ '', ''
              @ quote @ ''location'' @ quote @ '')''] else [])
   @ (if min_price \<noteq> JNull then [''price ge '' @ py_str E min_price] else [])
   @ (if max_price \<noteq> JNull then [''price le '' @ py_str E max_price] else [])
   @ (if bedrooms \<noteq> JNull then [''bedrooms eq '' @ py_str E bedrooms] else [])"

definition format_property :: "json \<Rightarrow> exc + json" where
  "format_property prop =
     ebind (py_get prop ''reference_number'' JNull) (\<lambda>r.
     ebind (py_get prop ''title'' JNull) (\<lambda>t.
     ebind (py_get prop ''property_type'' JNull) (\<lambda>ty.
     ebind (py_get prop ''location'' JNull) (\<lambda>l.
     ebind (py_get prop ''price'' JNull) (\<lambda>p.
     ebind (py_get prop ''bedrooms'' JNull) (\<lambda>b.
     ebind (py_get prop ''bathrooms'' JNull) (\<lambda>ba.
     Inr (JObject [(''reference'', r), (''title'', t), (''type'', ty), (''location'', l),
                   (''price_qar'', p), (''bedrooms'', b), (''bathrooms'', ba)]))))))))"

text \<open>The \<^verbatim>\<open>for prop in properties\<close> loop: the first failing item raises.\<close>

fun format_properties :: "json list \<Rightarrow> exc + json list" where
  "format_properties [] = Inr []"
| "format_properties (prop # rest) =
     ebind (format_property prop) (\<lambda>f.
     ebind (format_properties rest) (\<lambda>fs. Inr (f # fs)))"

text \<open>The body of the \<^verbatim>\<open>try\<close> of \<^verbatim>\<open>search_properties\<close>, after the post returned.\<close>

definition search_response :: "env \<Rightarrow> http_response \<Rightarrow> exc + json" where
  "search_response E response =
     (if status_code response = 200 then
        ebind (json_body response) (\<lambda>result.
        ebind (py_get result ''value'' (JArray [])) (\<lambda>properties.
        ebind (py_get result ''@odata.count'' (JInt 0)) (\<lambda>total_count.
        if \<not> truthy properties then
          Inr (JObject [(''found'', JInt 0),
                        (''message'', JString ''No properties found matching your criteria.'')])
        else
          ebind (py_iter properties) (\<lambda>items.
          ebind (format_properties items) (\<lambda>formatted_properties.
          Inr (JObject [(''found'', total_count),
                        (''showing'', JInt (int (length formatted_properties))),
                        (''properties'', JArray formatted_properties)]))))))
      else
        Inr (JObject [(''error'',
               JString (''Search failed: '' @ py_str E (JInt (status_code response))))]))"

text \<open>
  The result is the dict handed to \<^verbatim>\<open>json.dumps\<close>: the returned text is the
  encoding of that dict, and decoding the text gives the dict back, so the dict stands for
  the text.
\<close>

definition search_properties ::
  "env \<Rightarrow> json \<Rightarrow> json \<Rightarrow> json \<Rightarrow> json \<Rightarrow> json \<Rightarrow> json \<Rightarrow> json" where
  "search_properties E query property_type location min_price max_price bedrooms =
     (if unset (SEARCH_ENDPOINT E) \<or> unset (SEARCH_API_KEY E) then
        JObject [(''error'', JString ''Search service not configured'')]
      else
        let filters = build_filters E property_type location min_price max_price bedrooms;
            query_embedding = generate_embedding E query;
            payload = \<lparr> search = query, top = 10,
                        filter_expr = (if filters = [] then None else Some (join_and filters)),
                        vectorQueries = (if truthy query_embedding then Some query_embedding else None) \<rparr>
        in
          (case ebind (search_post E payload) (search_response E) of
             Inr r \<Rightarrow> r
           | Inl e \<Rightarrow> JObject [(''error'', JString (''Search error: '' @ exc_str e))]))"

definition lookup_response :: "env \<Rightarrow> json \<Rightarrow> http_response \<Rightarrow> exc + json" where
  "lookup_response E reference_number response =
     (if status_code response = 200 then
        ebind (json_body response) (\<lambda>result.
        ebind (py_get result ''value'' (JArray [])) (\<lambda>properties.
        if \<not> truthy properties then
          Inr (JObject [(''found'', JBool False),
                        (''message'', JString (''No property found with reference number ''
                                               @ py_str E reference_number))])
        else
          ebind (subscript_zero properties) (\<lambda>prop.
          ebind (py_get prop ''reference_number'' JNull) (\<lambda>r.
          ebind (py_get prop ''title'' JNull) (\<lambda>t.
          ebind (py_get prop ''property_type'' JNull) (\<lambda>ty.
          ebind (py_get prop ''location'' JNull) (\<lambda>l.
          ebind (py_get prop ''price'' JNull) (\<lambda>p.
          ebind (py_get prop ''bedrooms'' JNull) (\<lambda>b.
          ebind (py_get prop ''bathrooms'' JNull) (\<lambda>ba.
          ebind (py_get prop ''url'' JNull) (\<lambda>u.
          Inr (JObject [(''found'', JBool True),
                        (''property'',
                         JObject [(''reference'', r), (''title'', t), (''type'', ty),
                                  (''location'', l), (''price_qar'', p), (''bedrooms'', b),
                                  (''bathrooms'', ba), (''url'', u)])]))))))))))))
      else
        Inr (JObject [(''error'',
               JString (''Lookup failed: '' @ py_str E (JInt (status_code response))))]))"

definition get_property_details :: "env \<Rightarrow> json \<Rightarrow> json" where
  "get_property_details E reference_number =
     (if unset (SEARCH_ENDPOINT E) \<or> unset (SEARCH_API_KEY E) then
        JObject [(''error'', JString ''Search service not configured'')]
      else
        let query_embedding =
              generate_embedding E (JString (''property reference '' @ py_str E reference_number));
            payload = \<lparr> search = reference_number, top = 1, filter_expr = None,
                        vectorQueries = (if truthy query_embedding then Some query_embedding else None) \<rparr>
        in
          (case ebind (search_post E payload) (lookup_response E reference_number) of
             Inr r \<Rightarrow> r
           | Inl e \<Rightarrow> JObject [(''error'', JString (''Lookup error: '' @ exc_str e))]))"

section \<open>The tool dispatcher (app.py, handle_tool_call)\<close>

text \<open>\<^verbatim>\<open>v > n\<close> for an integer constant \<open>n\<close>.\<close>

fun py_gt :: "json \<Rightarrow> int \<Rightarrow> exc + bool" where
  "py_gt (JInt i) n = Inr (i > n)"
| "py_gt (JBool b) n = Inr ((if b then 1 else 0) > n)"
| "py_gt (JFloat (Finite r)) n = Inr (r > of_int n)"
| "py_gt (JFloat PosInf) n = Inr True"
| "py_gt (JFloat NegInf) n = Inr False"
| "py_gt (JFloat NaN) n = Inr False"
| "py_gt v n =
     Inl (Exc TypeError (quote @ ''>'' @ quote @ '' not supported between instances of ''
                         @ quote @ type_name v @ quote @ '' and '' @ quote @ ''int'' @ quote))"

text \<open>\<^verbatim>\<open>v[:n]\<close>.\<close>

fun py_slice :: "nat \<Rightarrow> json \<Rightarrow> exc + json" where
  "py_slice n (JString s) = Inr (JString (take n s))"
| "py_slice n (JArray xs) = Inr (JArray (take n xs))"
| "py_slice n (JObject kvs) = Inl (Exc TypeError (''unhashable type: '' @ quote @ ''slice'' @ quote))"
| "py_slice n v =
     Inl (Exc TypeError (quote @ type_name v @ quote @ '' object is not subscriptable''))"

text \<open>\<^verbatim>\<open>k in v\<close> for a string \<open>k\<close>.\<close>

fun py_contains :: "json \<Rightarrow> string \<Rightarrow> exc + bool" where
  "py_contains (JObject kvs) k = Inr (k \<in> set (map fst kvs))"
| "py_contains (JArray xs) k = Inr (JString k \<in> set xs)"
| "py_contains (JString s) k = Inr (list_ex (\<lambda>i. take (length k) (drop i s) = k) [0..<Suc (length s)])"
| "py_contains v k =
     Inl (Exc TypeError (''argument of type '' @ quote @ type_name v @ quote @ '' is not iterable''))"

text \<open>One line of the result summary: the arguments of its f-string, left to right.\<close>

definition log_property :: "json \<Rightarrow> exc + unit" where
  "log_property prop =
     ebind (py_get prop ''title'' (JString ''N/A'')) (\<lambda>t.
     ebind (py_slice 40 t) (\<lambda>t40.
     ebind (py_get prop ''location'' JNull) (\<lambda>l.
     ebind (py_get prop ''price_qar'' JNull) (\<lambda>p. Inr ()))))"

fun log_properties :: "json list \<Rightarrow> exc + unit" where
  "log_properties [] = Inr ()"
| "log_properties (prop # rest) = ebind (log_property prop) (\<lambda>u. log_properties rest)"

text \<open>
  The result summary of a search (app.py lines 361 to 368). \<open>result_data\<close> is
  \<^verbatim>\<open>json.loads(result_json)\<close>, the dict the tool encoded.
\<close>

definition log_search_summary :: "json \<Rightarrow> exc + unit" where
  "log_search_summary result_data =
     ebind (py_get result_data ''found'' (JInt 0)) (\<lambda>found.
     ebind (py_gt found 0) (\<lambda>positive.
     ebind (if positive then py_contains result_data ''properties'' else Inr False) (\<lambda>listed.
     if listed then
       ebind (subscript_key result_data ''properties'') (\<lambda>ps.
       ebind (py_slice 3 ps) (\<lambda>ps3.
       ebind (py_iter ps3) (\<lambda>items.
       ebind (log_properties items) (\<lambda>u.
       ebind (py_gt found 3) (\<lambda>more. Inr ())))))
     else Inr ())))"

definition log_details_summary :: "json \<Rightarrow> exc + unit" where
  "log_details_summary result_data =
     ebind (py_get result_data ''found'' JNull) (\<lambda>found.
     if truthy found then
       ebind (py_get result_data ''property'' (JObject [])) (\<lambda>prop.
       ebind (py_get prop ''title'' (JString ''N/A'')) (\<lambda>t. Inr ()))
     else Inr ())"

text \<open>
  From the decoded arguments to \<^verbatim>\<open>result_json\<close> (app.py lines 342 to 384): the
  value is the result the dispatcher is about to send, or the exception raised on the way.
\<close>

definition tool_output :: "env \<Rightarrow> string option \<Rightarrow> json \<Rightarrow> exc + json" where
  "tool_output E name args =
     (if name = Some ''search_properties'' then
        ebind (py_get args ''query'' (JString ''N/A'')) (\<lambda>l1.
        ebind (py_get args ''location'' (JString ''Any'')) (\<lambda>l2.
        ebind (py_get args ''property_type'' (JString ''Any'')) (\<lambda>l3.
        ebind (py_get args ''bedrooms'' (JString ''Any'')) (\<lambda>l4.
        ebind (py_get args ''min_price'' (JString ''Min'')) (\<lambda>l5.
        ebind (py_get args ''max_price'' (JString ''Max'')) (\<lambda>l6.
        ebind (py_get args ''query'' (JString [])) (\<lambda>query.
        ebind (py_get args ''property_type'' (JString [])) (\<lambda>property_type.
        ebind (py_get args ''location'' (JString [])) (\<lambda>location.
        ebind (py_get args ''min_price'' JNull) (\<lambda>min_price.
        ebind (py_get args ''max_price'' JNull) (\<lambda>max_price.
        ebind (py_get args ''bedrooms'' JNull) (\<lambda>bedrooms.
        let result_json =
              search_properties E query property_type location min_price max_price bedrooms
        in ebind (log_search_summary result_json) (\<lambda>u. Inr result_json)))))))))))))
      else if name = Some ''get_property_details'' then
        ebind (py_get args ''reference_number'' (JString [])) (\<lambda>reference_number.
        let result_json = get_property_details E reference_number
        in ebind (log_details_summary result_json) (\<lambda>u. Inr result_json))
      else Inr (JObject [(''error'', JString ''Unknown tool called.'')]))"

text \<open>An awaited command: it raises, or it is done and recorded.\<close>

definition perform :: "env \<Rightarrow> action \<Rightarrow> action list \<Rightarrow> (exc + unit) \<times> action list" where
  "perform E a done =
     (case io_fault E done a of Some e \<Rightarrow> (Inl e, done) | None \<Rightarrow> (Inr (), done @ [a]))"

text \<open>The body of the \<^verbatim>\<open>try\<close> (lines 341 to 396).\<close>

definition handle_tool_call_try ::
  "env \<Rightarrow> string \<Rightarrow> string option \<Rightarrow> string \<Rightarrow> action list \<Rightarrow> (exc + unit) \<times> action list" where
  "handle_tool_call_try E call_id name arguments done =
     (case ebind (json_loads E arguments) (tool_output E name) of
        Inl e \<Rightarrow> (Inl e, done)
      | Inr result_json \<Rightarrow>
          (case perform E (ConversationItemCreate call_id result_json) done of
             (Inl e, done1) \<Rightarrow> (Inl e, done1)
           | (Inr u, done1) \<Rightarrow> perform E ResponseCreate done1))"

text \<open>
  The whole coroutine: \<^verbatim>\<open>except Exception\<close> logs two error lines (the first
  starts with a cross mark, left out here) and the coroutine returns.
\<close>

definition handle_tool_call ::
  "env \<Rightarrow> string \<Rightarrow> string option \<Rightarrow> string \<Rightarrow> action list \<Rightarrow> (exc + unit) \<times> action list" where
  "handle_tool_call E call_id name arguments done =
     (case handle_tool_call_try E call_id name arguments done of
        (Inl tool_err, done1) \<Rightarrow>
          (Inr (), done1 @ [LogError ('' Tool execution failed: '' @ exc_str tool_err),
                            LogError (replicate 50 (CHR ''=''))])
      | (Inr u, done1) \<Rightarrow> (Inr (), done1))"

section \<open>The audio transcoder (app.py lines 111 to 121)\<close>

text \<open>
  The two helpers call \<^verbatim>\<open>audioop.ulaw2lin\<close>, \<^verbatim>\<open>audioop.lin2ulaw\<close>
  and \<^verbatim>\<open>audioop.ratecv\<close> of the standard library, always with sample width 2,
  one channel, no carried-over state and the default filter weights. These are modelled as
  CPython's \<^verbatim>\<open>Modules/audioop.c\<close> computes them for those arguments. Samples
  are little-endian signed 16-bit integers.
\<close>

definition sample16 :: "byte \<Rightarrow> byte \<Rightarrow> int" where
  "sample16 lo hi =
     (let u = int (unat lo) + 256 * int (unat hi) in if u \<ge> 32768 then u - 65536 else u)"

definition bytes16 :: "int \<Rightarrow> byte list" where
  "bytes16 v = [word_of_int (v mod 256), word_of_int ((v div 256) mod 256)]"

fun samples_of :: "byte list \<Rightarrow> int list" where
  "samples_of (lo # hi # rest) = sample16 lo hi # samples_of rest"
| "samples_of bs = []"

text \<open>
  The entry of the table \<^verbatim>\<open>_st_ulaw2linear16\<close> for a code: the G.711 expansion
  of the complemented code (four mantissa bits, three segment bits, a sign bit).
\<close>

definition st_ulaw2linear16 :: "byte \<Rightarrow> int" where
  "st_ulaw2linear16 uc =
     (let v = int (unat (NOT uc));
          t = ((v mod 16) * 8 + 132) * 2 ^ nat ((v div 16) mod 8)
      in if v \<ge> 128 then 132 - t else t - 132)"

definition seg_uend :: "int list" where
  "seg_uend = [0x3F, 0x7F, 0xFF, 0x1FF, 0x3FF, 0x7FF, 0xFFF, 0x1FFF]"

text \<open>\<^verbatim>\<open>search\<close>: the index of the first table entry not below the value, or the size.\<close>

definition search_seg :: "int \<Rightarrow> nat" where
  "search_seg val = length (takeWhile (\<lambda>e. val > e) seg_uend)"

definition st_14linear2ulaw :: "int \<Rightarrow> byte" where
  "st_14linear2ulaw pcm_val =
     (let mask = (if pcm_val < 0 then 0x7F else 0xFF :: byte);
          magnitude = (if pcm_val < 0 then - pcm_val else pcm_val);
          clipped = (if magnitude > 8159 then 8159 else magnitude);
          biased = clipped + 33;
          seg = search_seg biased
      in if seg \<ge> 8 then 0x7F XOR mask
         else (word_of_int (int seg * 16) OR word_of_int ((biased div 2 ^ (seg + 1)) mod 16)) XOR mask)"

text \<open>\<^verbatim>\<open>audioop.ulaw2lin(fragment, 2)\<close>: every byte is a sample; no input is rejected.\<close>

definition ulaw2lin :: "byte list \<Rightarrow> byte list" where
  "ulaw2lin fragment = concat (map (\<lambda>uc. bytes16 (st_ulaw2linear16 uc)) fragment)"

text \<open>
  \<^verbatim>\<open>audioop.lin2ulaw(fragment, 2)\<close>: the sample is taken to 14 bits by an
  arithmetic shift before it is compressed.
\<close>

definition lin2ulaw :: "byte list \<Rightarrow> exc + byte list" where
  "lin2ulaw fragment =
     (if length fragment mod 2 \<noteq> 0 then Inl (Exc AudioopError ''not a whole number of frames'')
      else Inr (map (\<lambda>s. st_14linear2ulaw (s div 4)) (samples_of fragment)))"

text \<open>C's integer conversion of a quotient: rounded towards zero.\<close>

definition trunc_div :: "int \<Rightarrow> int \<Rightarrow> int" where
  "trunc_div a b = (if (a \<ge> 0) = (b > 0) then \<bar>a\<bar> div \<bar>b\<bar> else - (\<bar>a\<bar> div \<bar>b\<bar>))"

text \<open>
  The inner loop \<^verbatim>\<open>while (d >= 0)\<close> of \<^verbatim>\<open>ratecv\<close>: it writes the samples
  interpolated between the previous and the current input sample (both scaled to 32 bits)
  and returns them with the value of \<open>d\<close> it stops at.
\<close>

function ratecv_emit :: "int \<Rightarrow> int \<Rightarrow> int \<Rightarrow> int \<Rightarrow> int \<Rightarrow> int list \<times> int" where
  "ratecv_emit inrate outrate prev_i cur_i d =
     (if d \<ge> 0 \<and> inrate > 0 then
        (case ratecv_emit inrate outrate prev_i cur_i (d - inrate) of
           (out, d') \<Rightarrow>
             (trunc_div (prev_i * d + cur_i * (outrate - d)) outrate div 65536 # out, d'))
      else ([], d))"
  by pat_completeness auto
termination
  by (relation "measure (\<lambda>(inrate, outrate, prev_i, cur_i, d). nat (d + 1))") auto

text \<open>
  The outer loop, entered with \<open>d < 0\<close>: read one input sample, and once \<open>d\<close> is no
  longer negative write output samples; stop when the input is used up.
\<close>

fun ratecv_loop :: "int \<Rightarrow> int \<Rightarrow> int \<Rightarrow> int \<Rightarrow> int \<Rightarrow> int list \<Rightarrow> int list" where
  "ratecv_loop inrate outrate prev_i cur_i d [] = []"
| "ratecv_loop inrate outrate prev_i cur_i d (s # rest) =
     (if d + outrate < 0 then ratecv_loop inrate outrate cur_i (s * 65536) (d + outrate) rest
      else
        (case ratecv_emit inrate outrate cur_i (s * 65536) (d + outrate) of
           (out, d') \<Rightarrow> out @ ratecv_loop inrate outrate cur_i (s * 65536) d' rest))"

text \<open>\<^verbatim>\<open>audioop.ratecv(fragment, 2, 1, inrate, outrate, None)[0]\<close>.\<close>

definition ratecv :: "byte list \<Rightarrow> int \<Rightarrow> int \<Rightarrow> exc + byte list" where
  "ratecv fragment inrate outrate =
     (if length fragment mod 2 \<noteq> 0 then Inl (Exc AudioopError ''not a whole number of frames'')
      else if inrate \<le> 0 \<or> outrate \<le> 0 then Inl (Exc ValueError ''sampling rate not > 0'')
      else
        let g = gcd inrate outrate
        in Inr (concat (map bytes16
                 (ratecv_loop (inrate div g) (outrate div g) 0 0 (- (outrate div g))
                    (samples_of fragment)))))"

definition resample_mulaw_8k_to_pcm_24k :: "byte list \<Rightarrow> exc + byte list" where
  "resample_mulaw_8k_to_pcm_24k mulaw_chunk =
     (let pcm_8k = ulaw2lin mulaw_chunk in ratecv pcm_8k 8000 24000)"

definition resample_pcm_24k_to_mulaw_8k :: "byte list \<Rightarrow> exc + byte list" where
  "resample_pcm_24k_to_mulaw_8k pcm_chunk_24k =
     ebind (ratecv pcm_chunk_24k 24000 8000) (\<lambda>pcm_8k. lin2ulaw pcm_8k)"

section \<open>The event-loop clock (binary64 arithmetic)\<close>

text \<open>
  \<^verbatim>\<open>asyncio.get_running_loop().time()\<close> returns a Python float, and the audio gate
  of the telephony bridge subtracts two clock readings and compares the difference with the
  literal \<^verbatim>\<open>1.2\<close>. A float is kept as the rational it denotes; an arithmetic
  operation gives the exact result rounded to the nearest number with a significand of 53
  bits, ties to the even significand (IEEE 754 binary64, which CPython uses). The range of
  the exponent is not bounded: clock readings are far from overflow, and a difference of
  two binary64 numbers that falls in the subnormal range is exact.
\<close>

text \<open>\<^verbatim>\<open>n.bit_length()\<close> for a natural number.\<close>

fun bit_length :: "nat \<Rightarrow> nat" where
  "bit_length n = (if n = 0 then 0 else Suc (bit_length (n div 2)))"

text \<open>The exponent \<open>e\<close> with \<open>2 ^ e \<le> x < 2 ^ (e + 1)\<close>, for a positive \<open>x\<close>.\<close>

definition binade :: "rat \<Rightarrow> int" where
  "binade x = (if x \<ge> 1 then int (bit_length (nat \<lfloor>x\<rfloor>)) - 1
               else - int (bit_length (nat (\<lceil>1 / x\<rceil> - 1))))"

text \<open>The nearest integer, a tie going to the even one.\<close>

definition rne :: "rat \<Rightarrow> int" where
  "rne y = (let f = \<lfloor>y\<rfloor> in
              if y - of_int f < 1 / 2 then f
              else if y - of_int f > 1 / 2 then f + 1
              else if even f then f else f + 1)"

text \<open>
  The binary64 number a real result is rounded to: the significand is scaled to an integer
  of 53 bits and rounded.
\<close>

definition float_round :: "rat \<Rightarrow> rat" where
  "float_round x =
     (if x = 0 then 0
      else let e = binade \<bar>x\<bar> in
        if e \<ge> 52 then sgn x * (of_int (rne (\<bar>x\<bar> / 2 ^ nat (e - 52))) * 2 ^ nat (e - 52))
        else sgn x * (of_int (rne (\<bar>x\<bar> * 2 ^ nat (52 - e))) / 2 ^ nat (52 - e)))"

text \<open>
  The literal \<^verbatim>\<open>1.2\<close>: the binary64 number nearest to 6/5, which is
  \<^verbatim>\<open>(1.2).as_integer_ratio()\<close>, a little below 6/5.
\<close>

definition float_1_2 :: rat where
  "float_1_2 = 5404319552844595 / 4503599627370496"

section \<open>The session bridge (app.py, run_browser_agent and run_twilio_agent)\<close>

text \<open>
  The events of the agent connection the two bridges look at, with the attributes they
  read; every other event is \<open>OtherEvent\<close>.
\<close>

datatype server_event =
    TranscriptionCompleted string
  | ResponseTextDone string
  | ResponseAudioDelta "byte list"
  | SpeechStarted
  | SpeechStopped
  | FunctionCallArgumentsDone "string option" "string option" string
  | OtherEvent

text \<open>
  What \<^verbatim>\<open>await client_ws.receive_text()\<close> gives: a text frame, or
  \<^verbatim>\<open>WebSocketDisconnect\<close>.
\<close>

datatype client_input = Text string | Disconnect

datatype loop_control = Continue | Break

text \<open>A forwarding coroutine is running, has returned, or has raised.\<close>

datatype task = Running | Finished | Failed exc

text \<open>
  The greeting coroutine: waiting for the start event, in its 50 ms sleep (telephony only),
  or past its single \<^verbatim>\<open>connection.response.create()\<close>.
\<close>

datatype greeter = AwaitingStart | Sleeping | Greeted

text \<open>
  One call: the variables the coroutines share, the three coroutines, what has been done so
  far, and whether the session has been torn down. The commands of the tool-dispatch tasks
  are not part of \<open>actions\<close>: a spawned task is recorded as \<open>CreateTask\<close> and runs on
  its own (\<open>handle_tool_call\<close>).
\<close>

record 'v session =
  vars :: 'v
  to_azure :: task
  to_client :: task
  greeting :: greeter
  actions :: "action list"
  over :: bool

text \<open>
  What the scheduler lets happen next: the client-to-agent loop receives, the agent-to-client
  loop gets an event, or the greeting coroutine runs to its next suspension. The number
  with a received frame is what \<^verbatim>\<open>asyncio.get_running_loop().time()\<close> reads while
  the frame is handled: a binary64 number, kept as the rational it denotes.
\<close>

datatype turn = FromClient rat client_input | FromAgent server_event | GreeterTurn

text \<open>
  \<^verbatim>\<open>asyncio.gather\<close> re-raises the first exception of a coroutine; the
  \<^verbatim>\<open>except Exception\<close> of the session logs it and closes the client channel.
  The model stops there: nothing is recorded for a session that is over.
\<close>

definition session_error :: "string \<Rightarrow> exc \<Rightarrow> action list \<Rightarrow> action list" where
  "session_error label e done = done @ [LogError (label @ exc_str e), ClientClose]"

text \<open>\<^verbatim>\<open>if call_id: asyncio.create_task(handle_tool_call(...))\<close>.\<close>

definition spawn_tool_call ::
  "string option \<Rightarrow> string option \<Rightarrow> string \<Rightarrow> action list \<Rightarrow> action list" where
  "spawn_tool_call call_id name arguments done =
     (case call_id of
        None \<Rightarrow> done
      | Some c \<Rightarrow> if c = [] then done else done @ [CreateTask c name arguments])"

subsection \<open>Browser variant\<close>

text \<open>One iteration of \<^verbatim>\<open>forward_to_azure\<close> (lines 173 to 180); the flag is the start event.\<close>

definition browser_forward_to_azure_step ::
  "env \<Rightarrow> string \<Rightarrow> bool \<Rightarrow> action list \<Rightarrow> (exc + unit) \<times> bool \<times> action list" where
  "browser_forward_to_azure_step E data start_event done =
     (case json_loads E data of
        Inl e \<Rightarrow> (Inl e, start_event, done)
      | Inr message \<Rightarrow>
          (case subscript_key message ''type'' of
             Inl e \<Rightarrow> (Inl e, start_event, done)
           | Inr ty \<Rightarrow>
               if ty = JString ''start'' then (Inr (), True, done)
               else if ty = JString ''audio'' then
                 (case subscript_key message ''payload'' of
                    Inl e \<Rightarrow> (Inl e, start_event, done)
                  | Inr payload \<Rightarrow>
                      if truthy payload then
                        (case perform E (InputAudioAppend payload) done of
                           (r, done1) \<Rightarrow> (r, start_event, done1))
                      else (Inr (), start_event, done))
               else if ty = JString ''commit'' then
                 (case perform E InputAudioCommit done of (r, done1) \<Rightarrow> (r, start_event, done1))
               else (Inr (), start_event, done)))"

text \<open>One iteration of \<^verbatim>\<open>forward_to_client\<close> (lines 186 to 217).\<close>

fun browser_forward_to_client_step ::
  "env \<Rightarrow> server_event \<Rightarrow> action list \<Rightarrow> (exc + unit) \<times> action list" where
  "browser_forward_to_client_step E (ResponseAudioDelta delta) done =
     (if delta \<noteq> [] then
        perform E (ClientSendJson (JObject [(''type'', JString ''audio''),
                                            (''payload'', JString (b64encode E delta))])) done
      else (Inr (), done))"
| "browser_forward_to_client_step E SpeechStarted done =
     (case perform E (ClientSendJson (JObject [(''type'', JString ''clear_audio'')])) done of
        (Inl e, done1) \<Rightarrow> (Inl e, done1)
      | (Inr u, done1) \<Rightarrow> perform E ResponseCancel done1)"
| "browser_forward_to_client_step E (FunctionCallArgumentsDone call_id name arguments) done =
     (Inr (), spawn_tool_call call_id name arguments done)"
| "browser_forward_to_client_step E ev done = (Inr (), done)"

definition browser_init :: "bool session" where
  "browser_init = \<lparr> vars = False, to_azure = Running, to_client = Running,
                     greeting = AwaitingStart, actions = [], over = False \<rparr>"

definition browser_step :: "env \<Rightarrow> turn \<Rightarrow> bool session \<Rightarrow> bool session" where
  "browser_step E t s =
     (if over s then s
      else case t of
        FromClient now inp \<Rightarrow>
          if to_azure s \<noteq> Running then s
          else (case inp of
                  Disconnect \<Rightarrow> s\<lparr> to_azure := Finished \<rparr>
                | Text data \<Rightarrow>
                    (case browser_forward_to_azure_step E data (vars s) (actions s) of
                       (Inl e, v, d) \<Rightarrow>
                         if exc_cls e = WebSocketDisconnect
                         then s\<lparr> vars := v, actions := d, to_azure := Finished \<rparr>
                         else s\<lparr> vars := v, to_azure := Failed e, over := True,
                                 actions := session_error ''Browser Session Error: '' e d \<rparr>
                     | (Inr u, v, d) \<Rightarrow> s\<lparr> vars := v, actions := d \<rparr>))
      | FromAgent ev \<Rightarrow>
          if to_client s \<noteq> Running then s
          else (case browser_forward_to_client_step E ev (actions s) of
                  (Inl e, d) \<Rightarrow>
                    s\<lparr> to_client := Failed e, over := True,
                       actions := session_error ''Browser Session Error: '' e d \<rparr>
                | (Inr u, d) \<Rightarrow> s\<lparr> actions := d \<rparr>)
      | GreeterTurn \<Rightarrow>
          (case greeting s of
             AwaitingStart \<Rightarrow>
               if vars s then
                 (case perform E ResponseCreate (actions s) of
                    (Inl e, d) \<Rightarrow>
                      s\<lparr> over := True, actions := session_error ''Browser Session Error: '' e d \<rparr>
                  | (Inr u, d) \<Rightarrow> s\<lparr> greeting := Greeted, actions := d \<rparr>)
               else s
           | Sleeping \<Rightarrow> s
           | Greeted \<Rightarrow> s))"

primrec browser_run :: "env \<Rightarrow> turn list \<Rightarrow> bool session \<Rightarrow> bool session" where
  "browser_run E [] s = s"
| "browser_run E (t # ts) s = browser_run E ts (browser_step E t s)"

subsection \<open>Telephony variant\<close>

text \<open>
  The variables \<^verbatim>\<open>forward_to_azure\<close> assigns: the stream identifier (None at
  first), the start event, and the start time (0 at first).
\<close>

record twilio_vars =
  stream_sid :: json
  stream_start_event :: bool
  start_time :: rat

text \<open>The media branch past the gate (lines 276 to 284).\<close>

definition twilio_media :: "env \<Rightarrow> json \<Rightarrow> action list \<Rightarrow> (exc + unit) \<times> action list" where
  "twilio_media E packet done =
     (case ebind (subscript_key packet ''media'') (\<lambda>m.
           ebind (subscript_key m ''payload'') (\<lambda>payload.
           ebind (b64decode E payload) (\<lambda>mulaw_payload.
           resample_mulaw_8k_to_pcm_24k mulaw_payload))) of
        Inl e \<Rightarrow> (Inl e, done)
      | Inr pcm_24k \<Rightarrow> perform E (InputAudioAppend (JString (b64encode E pcm_24k))) done)"

text \<open>One iteration of \<^verbatim>\<open>forward_to_azure\<close> (lines 262 to 288).\<close>

definition twilio_forward_to_azure_step ::
  "env \<Rightarrow> rat \<Rightarrow> string \<Rightarrow> twilio_vars \<Rightarrow> action list
     \<Rightarrow> (exc + loop_control) \<times> twilio_vars \<times> action list" where
  "twilio_forward_to_azure_step E now data v done =
     (case json_loads E data of
        Inl e \<Rightarrow> (Inl e, v, done)
      | Inr packet \<Rightarrow>
          (case subscript_key packet ''event'' of
             Inl e \<Rightarrow> (Inl e, v, done)
           | Inr event \<Rightarrow>
               if event = JString ''start'' then
                 (case ebind (subscript_key packet ''start'') (\<lambda>st. subscript_key st ''streamSid'') of
                    Inl e \<Rightarrow> (Inl e, v, done)
                  | Inr sid \<Rightarrow>
                      (Inr Continue,
                       v\<lparr> stream_sid := sid, stream_start_event := True, start_time := now \<rparr>,
                       done))
               else if event = JString ''media'' then
                 (if float_round (now - start_time v) < float_1_2 then (Inr Continue, v, done)
                  else (case twilio_media E packet done of
                          (Inl e, done1) \<Rightarrow> (Inl e, v, done1)
                        | (Inr u, done1) \<Rightarrow> (Inr Continue, v, done1)))
               else if event = JString ''stop'' then (Inr Break, v, done)
               else (Inr Continue, v, done)))"

text \<open>One iteration of \<^verbatim>\<open>forward_to_client\<close> (lines 295 to 326).\<close>

fun twilio_forward_to_client_step ::
  "env \<Rightarrow> server_event \<Rightarrow> twilio_vars \<Rightarrow> action list \<Rightarrow> (exc + unit) \<times> action list" where
  "twilio_forward_to_client_step E (ResponseAudioDelta delta) v done =
     (if delta \<noteq> [] \<and> truthy (stream_sid v) then
        (case resample_pcm_24k_to_mulaw_8k delta of
           Inl e \<Rightarrow> (Inl e, done)
         | Inr mulaw_chunk \<Rightarrow>
             perform E (ClientSendJson (JObject
               [(''event'', JString ''media''), (''streamSid'', stream_sid v),
                (''media'', JObject [(''payload'', JString (b64encode E mulaw_chunk))])])) done)
      else (Inr (), done))"
| "twilio_forward_to_client_step E SpeechStarted v done =
     (case (if truthy (stream_sid v)
            then perform E (ClientSendJson (JObject
                   [(''event'', JString ''clear''), (''streamSid'', stream_sid v)])) done
            else (Inr (), done)) of
        (Inl e, done1) \<Rightarrow> (Inl e, done1)
      | (Inr u, done1) \<Rightarrow> perform E ResponseCancel done1)"
| "twilio_forward_to_client_step E (FunctionCallArgumentsDone call_id name arguments) v done =
     (Inr (), spawn_tool_call call_id name arguments done)"
| "twilio_forward_to_client_step E ev v done = (Inr (), done)"

definition twilio_init :: "twilio_vars session" where
  "twilio_init = \<lparr> vars = \<lparr> stream_sid = JNull, stream_start_event = False, start_time = 0 \<rparr>,
                    to_azure = Running, to_client = Running,
                    greeting = AwaitingStart, actions = [], over = False \<rparr>"

definition twilio_step :: "env \<Rightarrow> turn \<Rightarrow> twilio_vars session \<Rightarrow> twilio_vars session" where
  "twilio_step E t s =
     (if over s then s
      else case t of
        FromClient now inp \<Rightarrow>
          if to_azure s \<noteq> Running then s
          else (case inp of
                  Disconnect \<Rightarrow> s\<lparr> to_azure := Finished \<rparr>
                | Text data \<Rightarrow>
                    (case twilio_forward_to_azure_step E now data (vars s) (actions s) of
                       (Inl e, v, d) \<Rightarrow>
                         if exc_cls e = WebSocketDisconnect
                         then s\<lparr> vars := v, actions := d, to_azure := Finished \<rparr>
                         else s\<lparr> vars := v, to_azure := Failed e, over := True,
                                 actions := session_error ''Twilio Session Error: '' e d \<rparr>
                     | (Inr Continue, v, d) \<Rightarrow> s\<lparr> vars := v, actions := d \<rparr>
                     | (Inr Break, v, d) \<Rightarrow> s\<lparr> vars := v, actions := d, to_azure := Finished \<rparr>))
      | FromAgent ev \<Rightarrow>
          if to_client s \<noteq> Running then s
          else (case twilio_forward_to_client_step E ev (vars s) (actions s) of
                  (Inl e, d) \<Rightarrow>
                    s\<lparr> to_client := Failed e, over := True,
                       actions := session_error ''Twilio Session Error: '' e d \<rparr>
                | (Inr u, d) \<Rightarrow> s\<lparr> actions := d \<rparr>)
      | GreeterTurn \<Rightarrow>
          (case greeting s of
             AwaitingStart \<Rightarrow>
               if stream_start_event (vars s) then s\<lparr> greeting := Sleeping \<rparr> else s
           | Sleeping \<Rightarrow>
               (case perform E ResponseCreate (actions s) of
                  (Inl e, d) \<Rightarrow>
                    s\<lparr> over := True, actions := session_error ''Twilio Session Error: '' e d \<rparr>
                | (Inr u, d) \<Rightarrow> s\<lparr> greeting := Greeted, actions := d \<rparr>)
           | Greeted \<Rightarrow> s))"

primrec twilio_run :: "env \<Rightarrow> turn list \<Rightarrow> twilio_vars session \<Rightarrow> twilio_vars session" where
  "twilio_run E [] s = s"
| "twilio_run E (t # ts) s = twilio_run E ts (twilio_step E t s)"

section \<open>Auxiliary notions for stating the properties\<close>

text \<open>The keys of a JSON object, in order; \<open>None\<close> for any other value.\<close>

definition keys_of :: "json \<Rightarrow> string list option" where
  "keys_of v = (case v of JObject kvs \<Rightarrow> Some (map fst kvs) | _ \<Rightarrow> None)"

fun is_dict :: "json \<Rightarrow> bool" where
  "is_dict (JObject kvs) = True"
| "is_dict v = False"

text \<open>
  Two notions for the session traces: a list of actions extended by a tail that holds no
  \<open>ResponseCreate\<close>, and the greeting invariant (the trace holds one
  \<open>ResponseCreate\<close> when the greeting coroutine is past its command and none before,
  and the coroutine leaves its wait only once the start signal is there).
\<close>

definition grows_without_create :: "action list \<Rightarrow> action list \<Rightarrow> bool" where
  "grows_without_create d d' = (\<exists>tail. d' = d @ tail \<and> ResponseCreate \<notin> set tail)"

definition greeting_inv :: "bool \<Rightarrow> 'v session \<Rightarrow> bool" where
  "greeting_inv started s =
     (count_list (actions s) ResponseCreate = (if greeting s = Greeted then 1 else 0)
      \<and> (greeting s = AwaitingStart \<or> started))"


fun from_client :: "turn \<Rightarrow> bool" where
  "from_client (FromClient now inp) = True"
| "from_client t = False"

fun sliceable_title :: "json \<Rightarrow> bool" where
  "sliceable_title (JObject kvs) =
     (case dict_get kvs ''title'' (JString ''N/A'') of
        JString s \<Rightarrow> True
      | JArray xs \<Rightarrow> True
      | _ \<Rightarrow> False)"
| "sliceable_title v = False"

text \<open>
  The call of the search tool the dispatcher makes with the decoded arguments (app.py
  lines 351 to 358).
\<close>

definition search_call :: "env \<Rightarrow> (string \<times> json) list \<Rightarrow> json" where
  "search_call E kvs =
     search_properties E (dict_get kvs ''query'' (JString []))
       (dict_get kvs ''property_type'' (JString []))
       (dict_get kvs ''location'' (JString []))
       (dict_get kvs ''min_price'' JNull) (dict_get kvs ''max_price'' JNull)
       (dict_get kvs ''bedrooms'' JNull)"

text \<open>
  A concrete environment for the examples: the search service is configured, no embedding
  service is, no command fails, and the search backend is the argument. The stand-ins for
  \<^verbatim>\<open>str()\<close>, \<^verbatim>\<open>json.loads\<close>, \<^verbatim>\<open>base64.b64decode\<close> and
  \<^verbatim>\<open>base64.b64encode\<close> agree with the library on the values the examples apply
  them to: strings and None; the texts below, \<^verbatim>\<open>{}\<close> and \<^verbatim>\<open>not json\<close>;
  the payloads \<^verbatim>\<open>/w==\<close> (the byte 255) and \<^verbatim>\<open>A\<close> (not base64); two zero
  bytes.
\<close>

definition start_text :: string where
  \<open>start_text = ''{"event": "start", "start": {"streamSid": "MZ1"}}''\<close>

definition media_text :: string where
  \<open>media_text = ''{"event": "media", "media": {"payload": "/w=="}}''\<close>

definition bad_media_text :: string where
  \<open>bad_media_text = ''{"event": "media", "media": {"payload": "A"}}''\<close>

definition browser_start_text :: string where
  \<open>browser_start_text = ''{"type": "start"}''\<close>

definition sample_str :: "json \<Rightarrow> string" where
  "sample_str v = (case v of JString s \<Rightarrow> s | JNull \<Rightarrow> ''None'' | _ \<Rightarrow> ''?'')"

definition sample_loads :: "string \<Rightarrow> exc + json" where
  "sample_loads s =
     (if s = ''{}'' then Inr (JObject [])
      else if s = start_text then
        Inr (JObject [(''event'', JString ''start''),
                      (''start'', JObject [(''streamSid'', JString ''MZ1'')])])
      else if s = media_text then
        Inr (JObject [(''event'', JString ''media''),
                      (''media'', JObject [(''payload'', JString ''/w=='')])])
      else if s = bad_media_text then
        Inr (JObject [(''event'', JString ''media''),
                      (''media'', JObject [(''payload'', JString ''A'')])])
      else if s = browser_start_text then Inr (JObject [(''type'', JString ''start'')])
      else Inl (Exc ValueError ''Expecting value: line 1 column 1 (char 0)''))"

definition sample_b64decode :: "json \<Rightarrow> exc + byte list" where
  "sample_b64decode v =
     (case v of
        JString s \<Rightarrow>
          if s = ''/w=='' then Inr [0xFF]
          else if s = ''A'' then
            Inl (Exc BinasciiError
              ''Invalid base64-encoded string: number of data characters (1) cannot be 1 more than a multiple of 4'')
          else Inl (Exc BinasciiError ''Incorrect padding'')
      | _ \<Rightarrow> Inl (Exc TypeError ''argument should be a bytes-like object or ASCII string''))"

definition sample_b64encode :: "byte list \<Rightarrow> string" where
  "sample_b64encode bs = (if bs = [0, 0] then ''AAA='' else [])"

definition sample_env :: "(search_payload \<Rightarrow> exc + http_response) \<Rightarrow> env" where
  "sample_env backend =
     \<lparr> SEARCH_ENDPOINT = Some ''https://search.example'', SEARCH_API_KEY = Some ''key'',
       OPENAI_ENDPOINT = None, OPENAI_API_KEY = None,
       embedding_post = (\<lambda>t. Inl (Exc RequestException ''unreachable'')),
       search_post = backend,
       py_str = sample_str,
       json_loads = sample_loads,
       b64decode = sample_b64decode,
       b64encode = sample_b64encode,
       io_fault = (\<lambda>done a. None) \<rparr>"

text \<open>The same with a backend that cannot be reached.\<close>

definition offline_env :: env where
  "offline_env = sample_env (\<lambda>p. Inl (Exc RequestException ''unreachable''))"

section \<open>Properties of the search tools\<close>

lemma keys_of_JObject [simp]: "keys_of (JObject kvs) = Some (map fst kvs)"
  by (simp add: keys_of_def)

lemma ebind_simps [simp]: "ebind (Inl e) f = Inl e" "ebind (Inr v) f = f v"
  by (simp_all add: ebind_def)

lemma ebindE: "ebind m f = Inr r \<Longrightarrow> (\<And>v. m = Inr v \<Longrightarrow> f v = Inr r \<Longrightarrow> P) \<Longrightarrow> P"
  by (cases m) simp_all

lemma search_response_shape:
  assumes "search_response E resp = Inr r"
  shows "(\<exists>m. r = JObject [(''error'', JString m)])
       \<or> (\<exists>m. r = JObject [(''found'', JInt 0), (''message'', JString m)])
       \<or> (\<exists>c n fs. r = JObject [(''found'', c), (''showing'', JInt n), (''properties'', JArray fs)])"
proof (cases "status_code resp = 200")
  case False
  with assms show ?thesis by (auto simp: search_response_def)
next
  case True
  with assms obtain properties total_count where
    r: "(if \<not> truthy properties then
          Inr (JObject [(''found'', JInt 0),
                        (''message'', JString ''No properties found matching your criteria.'')])
        else
          ebind (py_iter properties) (\<lambda>items.
          ebind (format_properties items) (\<lambda>formatted_properties.
          Inr (JObject [(''found'', total_count),
                        (''showing'', JInt (int (length formatted_properties))),
                        (''properties'', JArray formatted_properties)])))) = Inr r"
    unfolding search_response_def by (auto elim!: ebindE)
  show ?thesis
  proof (cases "truthy properties")
    case False
    with r show ?thesis by auto
  next
    case True
    with r show ?thesis by (auto elim!: ebindE)
  qed
qed

lemma search_properties_shape:
  "(\<exists>m. search_properties E q pt loc lo hi b = JObject [(''error'', JString m)])
   \<or> (\<exists>m. search_properties E q pt loc lo hi b = JObject [(''found'', JInt 0), (''message'', JString m)])
   \<or> (\<exists>c n fs. search_properties E q pt loc lo hi b
         = JObject [(''found'', c), (''showing'', JInt n), (''properties'', JArray fs)])"
proof (cases "unset (SEARCH_ENDPOINT E) \<or> unset (SEARCH_API_KEY E)")
  case True
  then show ?thesis by (simp add: search_properties_def)
next
  case False
  define payload where "payload = \<lparr> search = q, top = 10,
      filter_expr = (if build_filters E pt loc lo hi b = [] then None
                     else Some (join_and (build_filters E pt loc lo hi b))),
      vectorQueries = (if truthy (generate_embedding E q) then Some (generate_embedding E q) else None) \<rparr>"
  have eq: "search_properties E q pt loc lo hi b =
      (case ebind (search_post E payload) (search_response E) of
         Inr r \<Rightarrow> r
       | Inl e \<Rightarrow> JObject [(''error'', JString (''Search error: '' @ exc_str e))])"
    using False by (simp add: search_properties_def payload_def Let_def)
  show ?thesis
  proof (cases "ebind (search_post E payload) (search_response E)")
    case (Inl e)
    with eq show ?thesis by simp
  next
    case (Inr r)
    then obtain resp where "search_response E resp = Inr r" by (auto elim!: ebindE)
    from search_response_shape [OF this] eq Inr show ?thesis by simp
  qed
qed

lemma lookup_response_shape:
  assumes "lookup_response E ref resp = Inr r"
  shows "(\<exists>m. r = JObject [(''error'', JString m)])
       \<or> (\<exists>m. r = JObject [(''found'', JBool False), (''message'', JString m)])
       \<or> (\<exists>kvs. r = JObject [(''found'', JBool True), (''property'', JObject kvs)])"
proof (cases "status_code resp = 200")
  case False
  with assms show ?thesis by (auto simp: lookup_response_def)
next
  case True
  with assms obtain properties where
    r: "(if \<not> truthy properties then
          Inr (JObject [(''found'', JBool False),
                        (''message'', JString (''No property found with reference number ''
                                               @ py_str E ref))])
        else
          ebind (subscript_zero properties) (\<lambda>prop.
          ebind (py_get prop ''reference_number'' JNull) (\<lambda>r.
          ebind (py_get prop ''title'' JNull) (\<lambda>t.
          ebind (py_get prop ''property_type'' JNull) (\<lambda>ty.
          ebind (py_get prop ''location'' JNull) (\<lambda>l.
          ebind (py_get prop ''price'' JNull) (\<lambda>p.
          ebind (py_get prop ''bedrooms'' JNull) (\<lambda>b.
          ebind (py_get prop ''bathrooms'' JNull) (\<lambda>ba.
          ebind (py_get prop ''url'' JNull) (\<lambda>u.
          Inr (JObject [(''found'', JBool True),
                        (''property'',
                         JObject [(''reference'', r), (''title'', t), (''type'', ty),
                                  (''location'', l), (''price_qar'', p), (''bedrooms'', b),
                                  (''bathrooms'', ba), (''url'', u)])]))))))))))) = Inr r"
    unfolding lookup_response_def by (auto elim!: ebindE)
  show ?thesis
  proof (cases "truthy properties")
    case False
    with r show ?thesis by auto
  next
    case True
    with r show ?thesis by (auto elim!: ebindE)
  qed
qed

lemma get_property_details_shape:
  "(\<exists>m. get_property_details E ref = JObject [(''error'', JString m)])
   \<or> (\<exists>m. get_property_details E ref = JObject [(''found'', JBool False), (''message'', JString m)])
   \<or> (\<exists>kvs. get_property_details E ref = JObject [(''found'', JBool True), (''property'', JObject kvs)])"
proof (cases "unset (SEARCH_ENDPOINT E) \<or> unset (SEARCH_API_KEY E)")
  case True
  then show ?thesis by (simp add: get_property_details_def)
next
  case False
  define emb where "emb = generate_embedding E (JString (''property reference '' @ py_str E ref))"
  define payload where "payload = \<lparr> search = ref, top = 1, filter_expr = None,
      vectorQueries = (if truthy emb then Some emb else None) \<rparr>"
  have eq: "get_property_details E ref =
      (case ebind (search_post E payload) (lookup_response E ref) of
         Inr r \<Rightarrow> r
       | Inl e \<Rightarrow> JObject [(''error'', JString (''Lookup error: '' @ exc_str e))])"
    using False by (simp add: get_property_details_def payload_def emb_def Let_def)
  show ?thesis
  proof (cases "ebind (search_post E payload) (lookup_response E ref)")
    case (Inl e)
    with eq show ?thesis by simp
  next
    case (Inr r)
    then obtain resp where "lookup_response E ref resp = Inr r" by (auto elim!: ebindE)
    from lookup_response_shape [OF this] eq Inr show ?thesis by simp
  qed
qed

lemma format_property_dict:
  "is_dict p \<Longrightarrow> \<exists>f. format_property p = Inr f"
  by (cases p) (simp_all add: format_property_def)

lemma format_properties_dicts:
  "list_all is_dict ps \<Longrightarrow> \<exists>fs. format_properties ps = Inr fs \<and> length fs = length ps"
proof (induction ps)
  case Nil
  show ?case by simp
next
  case (Cons p ps)
  then obtain f fs where "format_property p = Inr f" "format_properties ps = Inr fs" "length fs = length ps"
    using format_property_dict by fastforce
  then show ?case by simp
qed

lemma search_properties_keys:
  "keys_of (search_properties E q pt loc lo hi b) = Some [''error'']
   \<or> keys_of (search_properties E q pt loc lo hi b) = Some [''found'', ''message'']
   \<or> keys_of (search_properties E q pt loc lo hi b) = Some [''found'', ''showing'', ''properties'']"
  using search_properties_shape [of E q pt loc lo hi b] by auto

lemma get_property_details_keys:
  "keys_of (get_property_details E ref) = Some [''error'']
   \<or> keys_of (get_property_details E ref) = Some [''found'', ''message'']
   \<or> keys_of (get_property_details E ref) = Some [''found'', ''property'']"
  using get_property_details_shape [of E ref] by auto

text \<open>
  Claim C2, as amended. Both tools always return: the result is the encoding of a JSON
  object (an exception raised by the collaborators or by the handling of the response is
  turned into an \<open>error\<close> object by the \<^verbatim>\<open>except\<close> clause). Its keys are
  \<open>error\<close> alone; or \<open>found\<close> and \<open>message\<close>, for an empty result set; or, for a
  non-empty one, \<open>found\<close>, \<open>showing\<close>, \<open>properties\<close> (search) and
  \<open>found\<close>, \<open>property\<close> (details).
\<close>

theorem tools_return_object:
  "(keys_of (search_properties E q pt loc lo hi b) = Some [''error'']
    \<or> keys_of (search_properties E q pt loc lo hi b) = Some [''found'', ''message'']
    \<or> keys_of (search_properties E q pt loc lo hi b) = Some [''found'', ''showing'', ''properties''])
   \<and> (keys_of (get_property_details E ref) = Some [''error'']
    \<or> keys_of (get_property_details E ref) = Some [''found'', ''message'']
    \<or> keys_of (get_property_details E ref) = Some [''found'', ''property''])"
  using search_properties_keys get_property_details_keys by blast

theorem tools_return_object_witness:
  "(keys_of (search_properties (sample_env (\<lambda>p. Inl (Exc RequestException ''timeout'')))
        (JString ''villa'') (JString []) (JString []) JNull JNull JNull) = Some [''error'']
    \<or> keys_of (search_properties (sample_env (\<lambda>p. Inl (Exc RequestException ''timeout'')))
        (JString ''villa'') (JString []) (JString []) JNull JNull JNull) = Some [''found'', ''message'']
    \<or> keys_of (search_properties (sample_env (\<lambda>p. Inl (Exc RequestException ''timeout'')))
        (JString ''villa'') (JString []) (JString []) JNull JNull JNull)
        = Some [''found'', ''showing'', ''properties''])
   \<and> (keys_of (get_property_details (sample_env (\<lambda>p. Inl (Exc RequestException ''timeout'')))
        (JString ''X-1'')) = Some [''error'']
    \<or> keys_of (get_property_details (sample_env (\<lambda>p. Inl (Exc RequestException ''timeout'')))
        (JString ''X-1'')) = Some [''found'', ''message'']
    \<or> keys_of (get_property_details (sample_env (\<lambda>p. Inl (Exc RequestException ''timeout'')))
        (JString ''X-1'')) = Some [''found'', ''property''])"
  by (rule tools_return_object)

lemma sample_env_sel [simp]:
  "SEARCH_ENDPOINT (sample_env bk) = Some ''https://search.example''"
  "SEARCH_API_KEY (sample_env bk) = Some ''key''"
  "OPENAI_ENDPOINT (sample_env bk) = None"
  "search_post (sample_env bk) = bk"
  "py_str (sample_env bk) = sample_str"
  "json_loads (sample_env bk) = sample_loads"
  "b64decode (sample_env bk) = sample_b64decode"
  "b64encode (sample_env bk) = sample_b64encode"
  "io_fault (sample_env bk) = (\<lambda>done a. None)"
  by (simp_all add: sample_env_def)

lemma sample_loads_simps [simp]:
  "sample_loads ''{}'' = Inr (JObject [])"
  "sample_loads ''not json'' = Inl (Exc ValueError ''Expecting value: line 1 column 1 (char 0)'')"
  "sample_loads start_text
     = Inr (JObject [(''event'', JString ''start''),
                     (''start'', JObject [(''streamSid'', JString ''MZ1'')])])"
  "sample_loads media_text
     = Inr (JObject [(''event'', JString ''media''),
                     (''media'', JObject [(''payload'', JString ''/w=='')])])"
  "sample_loads bad_media_text
     = Inr (JObject [(''event'', JString ''media''),
                     (''media'', JObject [(''payload'', JString ''A'')])])"
  "sample_loads browser_start_text = Inr (JObject [(''type'', JString ''start'')])"
  by (simp_all add: sample_loads_def start_text_def media_text_def bad_media_text_def
      browser_start_text_def)

lemma generate_embedding_sample [simp]: "generate_embedding (sample_env bk) t = JNull"
  by (simp add: generate_embedding_def)

text \<open>
  Claim C2 as stated fails on an empty result set: the backend answers 200 with no
  listing, and the object returned has the keys \<open>found\<close> and \<open>message\<close> only, none
  of \<open>properties\<close>, \<open>property\<close>, \<open>error\<close>.
\<close>

theorem empty_result_counterexample:
  "search_properties (sample_env (\<lambda>p. Inr (Response 200 (Inr (JObject [(''value'', JArray [])])))))
      (JString ''villa'') (JString []) (JString []) JNull JNull JNull
     = JObject [(''found'', JInt 0),
                (''message'', JString ''No properties found matching your criteria.'')]
   \<and> get_property_details (sample_env (\<lambda>p. Inr (Response 200 (Inr (JObject [(''value'', JArray [])])))))
      (JString ''X-1'')
     = JObject [(''found'', JBool False),
                (''message'', JString ''No property found with reference number X-1'')]"
  by (simp add: search_properties_def get_property_details_def search_response_def
      lookup_response_def build_filters_def dict_get_def sample_str_def)

lemma search_properties_listing:
  assumes cfg: "\<not> unset (SEARCH_ENDPOINT E)" "\<not> unset (SEARCH_API_KEY E)"
    and post: "\<forall>payload. search_post E payload = Inr (Response 200 (Inr (JObject result)))"
    and val: "dict_get result ''value'' (JArray []) = JArray props" "props \<noteq> []"
    and fmt: "format_properties props = Inr fs"
  shows "search_properties E q pt loc lo hi b
           = JObject [(''found'', dict_get result ''@odata.count'' (JInt 0)),
                      (''showing'', JInt (int (length fs))),
                      (''properties'', JArray fs)]"
proof -
  have "search_response E (Response 200 (Inr (JObject result)))
          = Inr (JObject [(''found'', dict_get result ''@odata.count'' (JInt 0)),
                      (''showing'', JInt (int (length fs))),
                      (''properties'', JArray fs)])"
    using val fmt by (simp add: search_response_def)
  then show ?thesis
    using cfg post by (simp add: search_properties_def Let_def)
qed

text \<open>
  Claim C9. When the search service is configured and the backend answers 200 with a JSON
  object whose \<open>value\<close> is a non-empty list of objects, the result of
  \<^verbatim>\<open>search_properties\<close> has \<open>found\<close> equal to the backend's
  \<open>@odata.count\<close>, or 0 when that field is absent, and \<open>showing\<close> equal to the
  number of listings returned. So a backend that omits the count makes the tool report
  \<open>found: 0\<close> next to a non-empty \<open>properties\<close> list.
\<close>

theorem found_is_backend_count:
  assumes "\<not> unset (SEARCH_ENDPOINT E)" "\<not> unset (SEARCH_API_KEY E)"
    and "\<forall>payload. search_post E payload = Inr (Response 200 (Inr (JObject result)))"
    and "dict_get result ''value'' (JArray []) = JArray props" "props \<noteq> []"
    and "list_all is_dict props"
  shows "\<exists>fs. format_properties props = Inr fs \<and> length fs = length props
          \<and> search_properties E q pt loc lo hi b
              = JObject [(''found'', dict_get result ''@odata.count'' (JInt 0)),
                         (''showing'', JInt (int (length props))),
                         (''properties'', JArray fs)]
          \<and> (map_of result ''@odata.count'' = None
               \<longrightarrow> search_properties E q pt loc lo hi b
                     = JObject [(''found'', JInt 0),
                                (''showing'', JInt (int (length props))),
                                (''properties'', JArray fs)])"
proof -
  from assms(6) obtain fs where fs: "format_properties props = Inr fs" "length fs = length props"
    using format_properties_dicts by blast
  have r: "search_properties E q pt loc lo hi b
              = JObject [(''found'', dict_get result ''@odata.count'' (JInt 0)),
                         (''showing'', JInt (int (length props))),
                         (''properties'', JArray fs)]"
    using search_properties_listing [OF assms(1-5) fs(1)] fs(2) by simp
  have "map_of result ''@odata.count'' = None \<Longrightarrow> dict_get result ''@odata.count'' (JInt 0) = JInt 0"
    by (simp add: dict_get_def)
  with fs r show ?thesis by auto
qed

theorem found_is_backend_count_witness:
  "search_properties
     (sample_env (\<lambda>p. Inr (Response 200 (Inr (JObject
        [(''value'', JArray [JObject [(''reference_number'', JString ''A1''), (''title'', JString ''Flat'')]])])))))
     (JString ''flat'') (JString []) (JString []) JNull JNull JNull
   = JObject [(''found'', JInt 0), (''showing'', JInt 1),
              (''properties'', JArray [JObject [(''reference'', JString ''A1''), (''title'', JString ''Flat''),
                 (''type'', JNull), (''location'', JNull), (''price_qar'', JNull),
                 (''bedrooms'', JNull), (''bathrooms'', JNull)]])]"
  using found_is_backend_count [of
     "sample_env (\<lambda>p. Inr (Response 200 (Inr (JObject
        [(''value'', JArray [JObject [(''reference_number'', JString ''A1''), (''title'', JString ''Flat'')]])]))))"
     "[(''value'', JArray [JObject [(''reference_number'', JString ''A1''), (''title'', JString ''Flat'')]])]"
     "[JObject [(''reference_number'', JString ''A1''), (''title'', JString ''Flat'')]]"
     "JString ''flat''" "JString []" "JString []" JNull JNull JNull]
  by (simp add: dict_get_def format_property_def)


section \<open>Properties of the tool dispatcher\<close>

lemma log_details_summary_ok:
  "log_details_summary (get_property_details E ref) = Inr ()"
  using get_property_details_shape [of E ref]
  by (auto simp: log_details_summary_def dict_get_def)

lemma tool_output_details:
  "tool_output E (Some ''get_property_details'') (JObject kvs)
     = Inr (get_property_details E (dict_get kvs ''reference_number'' (JString [])))"
  by (simp add: tool_output_def Let_def log_details_summary_ok)

lemma tool_output_unknown:
  "name \<noteq> Some ''search_properties'' \<Longrightarrow> name \<noteq> Some ''get_property_details'' \<Longrightarrow>
   tool_output E name args = Inr (JObject [(''error'', JString ''Unknown tool called.'')])"
  by (simp add: tool_output_def)

lemma tool_output_search:
  "tool_output E (Some ''search_properties'') (JObject kvs)
     = ebind (log_search_summary
               (search_properties E (dict_get kvs ''query'' (JString []))
                  (dict_get kvs ''property_type'' (JString []))
                  (dict_get kvs ''location'' (JString []))
                  (dict_get kvs ''min_price'' JNull) (dict_get kvs ''max_price'' JNull)
                  (dict_get kvs ''bedrooms'' JNull)))
         (\<lambda>u. Inr (search_properties E (dict_get kvs ''query'' (JString []))
                  (dict_get kvs ''property_type'' (JString []))
                  (dict_get kvs ''location'' (JString []))
                  (dict_get kvs ''min_price'' JNull) (dict_get kvs ''max_price'' JNull)
                  (dict_get kvs ''bedrooms'' JNull)))"
  by (simp add: tool_output_def Let_def)

lemma tool_output_not_dict:
  "\<not> is_dict args \<Longrightarrow> name = Some ''search_properties'' \<or> name = Some ''get_property_details'' \<Longrightarrow>
   \<exists>m. tool_output E name args = Inl (Exc AttributeError m)"
  by (cases args) (auto simp: tool_output_def)

lemma tool_output_is_dict:
  assumes "tool_output E name args = Inr r"
  shows "is_dict r"
proof -
  consider (s) "name = Some ''search_properties''" | (d) "name = Some ''get_property_details''"
    | (u) "name \<noteq> Some ''search_properties''" "name \<noteq> Some ''get_property_details''" by blast
  then show ?thesis
  proof cases
    case s
    show ?thesis
    proof (cases args)
      case (JObject kvs)
      with s assms have "r = search_properties E (dict_get kvs ''query'' (JString []))
                  (dict_get kvs ''property_type'' (JString []))
                  (dict_get kvs ''location'' (JString []))
                  (dict_get kvs ''min_price'' JNull) (dict_get kvs ''max_price'' JNull)
                  (dict_get kvs ''bedrooms'' JNull)"
        by (auto simp: tool_output_search elim!: ebindE)
      then show ?thesis
        using search_properties_shape [of E "dict_get kvs ''query'' (JString [])"
                  "dict_get kvs ''property_type'' (JString [])"
                  "dict_get kvs ''location'' (JString [])"
                  "dict_get kvs ''min_price'' JNull" "dict_get kvs ''max_price'' JNull"
                  "dict_get kvs ''bedrooms'' JNull"] by auto
    qed (use s assms tool_output_not_dict [of args name E] in auto)
  next
    case d
    show ?thesis
    proof (cases args)
      case (JObject kvs)
      with d assms have "r = get_property_details E (dict_get kvs ''reference_number'' (JString []))"
        by (simp add: tool_output_details)
      then show ?thesis
        using get_property_details_shape [of E "dict_get kvs ''reference_number'' (JString [])"] by auto
    qed (use d assms tool_output_not_dict [of args name E] in auto)
  next
    case u
    with assms show ?thesis by (auto simp: tool_output_unknown)
  qed
qed


lemma perform_ok: "io_fault E d a = None \<Longrightarrow> perform E a d = (Inr (), d @ [a])"
  by (simp add: perform_def)

lemma perform_fail: "io_fault E d a = Some e \<Longrightarrow> perform E a d = (Inl e, d)"
  by (simp add: perform_def)

lemma handle_tool_call_try_decode_error:
  "json_loads E arguments = Inl e \<Longrightarrow> handle_tool_call_try E call_id name arguments d = (Inl e, d)"
  by (simp add: handle_tool_call_try_def)

lemma handle_tool_call_try_sent:
  assumes "json_loads E arguments = Inr args" "tool_output E name args = Inr r"
  shows "handle_tool_call_try E call_id name arguments d =
     (case perform E (ConversationItemCreate call_id r) d of
        (Inl e, d1) \<Rightarrow> (Inl e, d1)
      | (Inr u, d1) \<Rightarrow> perform E ResponseCreate d1)"
  using assms by (simp add: handle_tool_call_try_def)

lemma tool_output_search_call:
  "tool_output E (Some ''search_properties'') (JObject kvs)
     = ebind (log_search_summary (search_call E kvs)) (\<lambda>u. Inr (search_call E kvs))"
  by (simp add: tool_output_def Let_def search_call_def)

lemma search_call_shape:
  "(\<exists>m. search_call E kvs = JObject [(''error'', JString m)])
   \<or> (\<exists>m. search_call E kvs = JObject [(''found'', JInt 0), (''message'', JString m)])
   \<or> (\<exists>c n fs. search_call E kvs
         = JObject [(''found'', c), (''showing'', JInt n), (''properties'', JArray fs)])"
  unfolding search_call_def by (rule search_properties_shape)

lemma log_search_summary_not_listing:
  assumes "keys_of (search_call E kvs) \<noteq> Some [''found'', ''showing'', ''properties'']"
  shows "log_search_summary (search_call E kvs) = Inr ()"
proof -
  from search_call_shape [of E kvs] assms consider
      (err) m where "search_call E kvs = JObject [(''error'', JString m)]"
    | (none) m where "search_call E kvs = JObject [(''found'', JInt 0), (''message'', JString m)]"
    by auto
  then show ?thesis
  proof cases
    case err
    then show ?thesis by (simp add: log_search_summary_def dict_get_def)
  next
    case none
    then show ?thesis by (simp add: log_search_summary_def dict_get_def)
  qed
qed

lemma log_property_sliceable: "sliceable_title p \<Longrightarrow> log_property p = Inr ()"
  by (cases p) (auto simp: log_property_def split: json.splits)

lemma log_properties_sliceable: "list_all sliceable_title ps \<Longrightarrow> log_properties ps = Inr ()"
  by (induction ps) (simp_all add: log_property_sliceable)

lemma log_search_summary_listing:
  assumes "list_all sliceable_title (take 3 fs)"
  shows "log_search_summary
           (JObject [(''found'', JInt n), (''showing'', sh), (''properties'', JArray fs)]) = Inr ()"
  using assms by (simp add: log_search_summary_def dict_get_def log_properties_sliceable)

lemma search_properties_unreachable:
  assumes "\<not> unset (SEARCH_ENDPOINT E)" "\<not> unset (SEARCH_API_KEY E)"
    and "\<forall>p. search_post E p = Inl x"
  shows "search_properties E q pt loc lo hi b
           = JObject [(''error'', JString (''Search error: '' @ exc_str x))]"
  using assms by (simp add: search_properties_def Let_def)

lemma search_response_failed:
  assumes "\<forall>body. resp \<noteq> Response 200 (Inr body)" "search_response E resp = Inr r"
  shows "\<exists>m. r = JObject [(''error'', JString m)]"
proof (cases resp)
  case (Response st jb)
  show ?thesis
  proof (cases "st = 200")
    case False
    with assms(2) Response show ?thesis by (auto simp: search_response_def)
  next
    case True
    with assms(1) Response obtain y where "jb = Inl y" by (cases jb) auto
    with assms(2) Response True show ?thesis by (simp add: search_response_def)
  qed
qed

lemma search_properties_failed:
  assumes "\<forall>p body. search_post E p \<noteq> Inr (Response 200 (Inr body))"
  shows "keys_of (search_properties E q pt loc lo hi b) = Some [''error'']"
proof (cases "unset (SEARCH_ENDPOINT E) \<or> unset (SEARCH_API_KEY E)")
  case True
  then show ?thesis by (simp add: search_properties_def)
next
  case False
  define payload where "payload = \<lparr> search = q, top = 10,
      filter_expr = (if build_filters E pt loc lo hi b = [] then None
                     else Some (join_and (build_filters E pt loc lo hi b))),
      vectorQueries = (if truthy (generate_embedding E q) then Some (generate_embedding E q) else None) \<rparr>"
  have eq: "search_properties E q pt loc lo hi b =
      (case ebind (search_post E payload) (search_response E) of
         Inr r \<Rightarrow> r
       | Inl e \<Rightarrow> JObject [(''error'', JString (''Search error: '' @ exc_str e))])"
    using False by (simp add: search_properties_def payload_def Let_def)
  show ?thesis
  proof (cases "ebind (search_post E payload) (search_response E)")
    case (Inl e)
    with eq show ?thesis by simp
  next
    case (Inr r)
    then obtain resp where resp: "search_post E payload = Inr resp" "search_response E resp = Inr r"
      by (auto elim!: ebindE)
    from assms resp(1) have "\<forall>body. resp \<noteq> Response 200 (Inr body)" by auto
    from search_response_failed [OF this resp(2)] eq Inr show ?thesis by auto
  qed
qed

lemma handle_tool_call_sent:
  assumes "json_loads E arguments = Inr args" "tool_output E name args = Inr r"
    and "io_fault E d (ConversationItemCreate call_id r) = None"
    and "io_fault E (d @ [ConversationItemCreate call_id r]) ResponseCreate = None"
  shows "handle_tool_call E call_id name arguments d
           = (Inr (), d @ [ConversationItemCreate call_id r, ResponseCreate])"
proof -
  have "handle_tool_call_try E call_id name arguments d
      = (Inr (), d @ [ConversationItemCreate call_id r, ResponseCreate])"
    using assms by (simp add: handle_tool_call_try_sent perform_ok)
  then show ?thesis by (simp add: handle_tool_call_def)
qed

text \<open>
  Claim C1, as amended. When the argument text decodes and the result is computed without
  an exception, the result is a JSON object and, the connection accepting both commands,
  the dispatcher issues the function-call-output item carrying it and then a
  response-create, and nothing else. The result is computed without an exception for an
  unknown tool name (the \<open>error\<close> object); for \<^verbatim>\<open>get_property_details\<close> with
  a JSON object as arguments, whatever the collaborators do; and for
  \<^verbatim>\<open>search_properties\<close> with a JSON object as arguments when the result of the
  tool is not a listing, or is a listing with an integer count whose first three entries
  have a title that can be cut (a string or a list). A result that is not a listing is what
  every failure of the search backend gives: unless the request returns status 200 with a
  body that decodes, the result is an \<open>error\<close> object, and when the request raises it
  is the object with the text of the exception after \<^verbatim>\<open>Search error: \<close>, which
  is sent. When the argument text does not decode, nothing is sent to the agent: the
  failure is logged and the coroutine returns.
\<close>

theorem dispatch_sends_result:
  "(json_loads E arguments = Inr args \<and> tool_output E name args = Inr r
      \<and> io_fault E d (ConversationItemCreate call_id r) = None
      \<and> io_fault E (d @ [ConversationItemCreate call_id r]) ResponseCreate = None
     \<longrightarrow> is_dict r
         \<and> handle_tool_call E call_id name arguments d
             = (Inr (), d @ [ConversationItemCreate call_id r, ResponseCreate]))
   \<and> (name \<noteq> Some ''search_properties'' \<and> name \<noteq> Some ''get_property_details''
     \<longrightarrow> tool_output E name args = Inr (JObject [(''error'', JString ''Unknown tool called.'')]))
   \<and> tool_output E (Some ''get_property_details'') (JObject kvs)
       = Inr (get_property_details E (dict_get kvs ''reference_number'' (JString [])))
   \<and> (keys_of (search_call E kvs) \<noteq> Some [''found'', ''showing'', ''properties'']
     \<longrightarrow> tool_output E (Some ''search_properties'') (JObject kvs) = Inr (search_call E kvs))
   \<and> ((\<forall>p body. search_post E p \<noteq> Inr (Response 200 (Inr body)))
     \<longrightarrow> keys_of (search_call E kvs) = Some [''error''])
   \<and> (json_loads E arguments = Inr (JObject kvs)
      \<and> \<not> unset (SEARCH_ENDPOINT E) \<and> \<not> unset (SEARCH_API_KEY E)
      \<and> (\<forall>p. search_post E p = Inl x)
      \<and> io_fault E d (ConversationItemCreate call_id
            (JObject [(''error'', JString (''Search error: '' @ exc_str x))])) = None
      \<and> io_fault E (d @ [ConversationItemCreate call_id
            (JObject [(''error'', JString (''Search error: '' @ exc_str x))])]) ResponseCreate = None
     \<longrightarrow> handle_tool_call E call_id (Some ''search_properties'') arguments d
           = (Inr (), d @ [ConversationItemCreate call_id
                             (JObject [(''error'', JString (''Search error: '' @ exc_str x))]),
                           ResponseCreate]))
   \<and> (search_call E kvs = JObject [(''found'', JInt n), (''showing'', sh), (''properties'', JArray fs)]
      \<and> list_all sliceable_title (take 3 fs)
     \<longrightarrow> tool_output E (Some ''search_properties'') (JObject kvs) = Inr (search_call E kvs))
   \<and> (json_loads E arguments = Inl e
     \<longrightarrow> handle_tool_call E call_id name arguments d
           = (Inr (), d @ [LogError ('' Tool execution failed: '' @ exc_str e),
                           LogError (replicate 50 (CHR ''=''))]))"
proof (intro conjI impI)
  assume a: "json_loads E arguments = Inr args \<and> tool_output E name args = Inr r
      \<and> io_fault E d (ConversationItemCreate call_id r) = None
      \<and> io_fault E (d @ [ConversationItemCreate call_id r]) ResponseCreate = None"
  then show "is_dict r" using tool_output_is_dict by blast
  from a show "handle_tool_call E call_id name arguments d
             = (Inr (), d @ [ConversationItemCreate call_id r, ResponseCreate])"
    by (intro handle_tool_call_sent [where args = args]) simp_all
next
  assume "name \<noteq> Some ''search_properties'' \<and> name \<noteq> Some ''get_property_details''"
  then show "tool_output E name args = Inr (JObject [(''error'', JString ''Unknown tool called.'')])"
    by (simp add: tool_output_unknown)
next
  show "tool_output E (Some ''get_property_details'') (JObject kvs)
       = Inr (get_property_details E (dict_get kvs ''reference_number'' (JString [])))"
    by (rule tool_output_details)
next
  assume "keys_of (search_call E kvs) \<noteq> Some [''found'', ''showing'', ''properties'']"
  then show "tool_output E (Some ''search_properties'') (JObject kvs) = Inr (search_call E kvs)"
    by (simp add: tool_output_search_call log_search_summary_not_listing)
next
  assume "\<forall>p body. search_post E p \<noteq> Inr (Response 200 (Inr body))"
  then show "keys_of (search_call E kvs) = Some [''error'']"
    unfolding search_call_def by (rule search_properties_failed)
next
  assume a: "json_loads E arguments = Inr (JObject kvs)
      \<and> \<not> unset (SEARCH_ENDPOINT E) \<and> \<not> unset (SEARCH_API_KEY E)
      \<and> (\<forall>p. search_post E p = Inl x)
      \<and> io_fault E d (ConversationItemCreate call_id
            (JObject [(''error'', JString (''Search error: '' @ exc_str x))])) = None
      \<and> io_fault E (d @ [ConversationItemCreate call_id
            (JObject [(''error'', JString (''Search error: '' @ exc_str x))])]) ResponseCreate = None"
  then have r: "search_call E kvs = JObject [(''error'', JString (''Search error: '' @ exc_str x))]"
    unfolding search_call_def by (intro search_properties_unreachable) simp_all
  then have "tool_output E (Some ''search_properties'') (JObject kvs)
               = Inr (JObject [(''error'', JString (''Search error: '' @ exc_str x))])"
    by (simp add: tool_output_search_call log_search_summary_def dict_get_def)
  with a show "handle_tool_call E call_id (Some ''search_properties'') arguments d
           = (Inr (), d @ [ConversationItemCreate call_id
                             (JObject [(''error'', JString (''Search error: '' @ exc_str x))]),
                           ResponseCreate])"
    by (intro handle_tool_call_sent [where args = "JObject kvs"]) simp_all
next
  assume a: "search_call E kvs
               = JObject [(''found'', JInt n), (''showing'', sh), (''properties'', JArray fs)]
      \<and> list_all sliceable_title (take 3 fs)"
  then have "log_search_summary (search_call E kvs) = Inr ()"
    by (simp add: log_search_summary_listing)
  then show "tool_output E (Some ''search_properties'') (JObject kvs) = Inr (search_call E kvs)"
    by (simp add: tool_output_search_call)
next
  assume "json_loads E arguments = Inl e"
  then show "handle_tool_call E call_id name arguments d
           = (Inr (), d @ [LogError ('' Tool execution failed: '' @ exc_str e),
                           LogError (replicate 50 (CHR ''=''))])"
    by (simp add: handle_tool_call_def handle_tool_call_try_decode_error)
qed

theorem dispatch_sends_result_witness:
  "handle_tool_call offline_env ''call_1'' (Some ''search_properties'') ''{}'' []
     = (Inr (), [ConversationItemCreate ''call_1''
                   (JObject [(''error'', JString ''Search error: unreachable'')]),
                 ResponseCreate])
   \<and> handle_tool_call offline_env ''call_2'' (Some ''get_property_details'') ''{}'' []
     = (Inr (), [ConversationItemCreate ''call_2''
                   (JObject [(''error'', JString ''Lookup error: unreachable'')]),
                 ResponseCreate])
   \<and> handle_tool_call
       (sample_env (\<lambda>p. Inr (Response 200 (Inr (JObject
          [(''value'', JArray [JObject [(''reference_number'', JString ''A1''),
                                        (''title'', JString ''Flat'')]]),
           (''@odata.count'', JInt 1)])))))
       ''call_3'' (Some ''search_properties'') ''{}'' []
     = (Inr (), [ConversationItemCreate ''call_3''
                   (JObject [(''found'', JInt 1), (''showing'', JInt 1),
                      (''properties'', JArray [JObject [(''reference'', JString ''A1''),
                         (''title'', JString ''Flat''), (''type'', JNull), (''location'', JNull),
                         (''price_qar'', JNull), (''bedrooms'', JNull), (''bathrooms'', JNull)]])]),
                 ResponseCreate])
   \<and> handle_tool_call offline_env ''call_4'' (Some ''book_viewing'') ''{}'' []
     = (Inr (), [ConversationItemCreate ''call_4''
                   (JObject [(''error'', JString ''Unknown tool called.'')]),
                 ResponseCreate])
   \<and> handle_tool_call offline_env ''call_5'' (Some ''get_property_details'') ''not json'' []
     = (Inr (), [LogError ('' Tool execution failed: '' @ ''Expecting value: line 1 column 1 (char 0)''),
                 LogError (replicate 50 (CHR ''=''))])"
proof -
  let ?listing = "JObject [(''found'', JInt 1), (''showing'', JInt 1),
                      (''properties'', JArray [JObject [(''reference'', JString ''A1''),
                         (''title'', JString ''Flat''), (''type'', JNull), (''location'', JNull),
                         (''price_qar'', JNull), (''bedrooms'', JNull), (''bathrooms'', JNull)]])]"
  let ?E = "sample_env (\<lambda>p. Inr (Response 200 (Inr (JObject
          [(''value'', JArray [JObject [(''reference_number'', JString ''A1''),
                                        (''title'', JString ''Flat'')]]),
           (''@odata.count'', JInt 1)]))))"
  note t = dispatch_sends_result
  have off [simp]: "json_loads offline_env = sample_loads" "io_fault offline_env = (\<lambda>done a. None)"
    "\<not> unset (SEARCH_ENDPOINT offline_env)" "\<not> unset (SEARCH_API_KEY offline_env)"
    "search_post offline_env = (\<lambda>p. Inl (Exc RequestException ''unreachable''))"
    "py_str offline_env = sample_str"
    by (simp_all add: offline_env_def)
  have c1: "handle_tool_call offline_env ''call_1'' (Some ''search_properties'') ''{}'' []
     = (Inr (), [ConversationItemCreate ''call_1''
                   (JObject [(''error'', JString ''Search error: unreachable'')]),
                 ResponseCreate])"
    using t [where E = offline_env and arguments = "''{}''" and kvs = "[]" and d = "[]"
               and call_id = "''call_1''" and x = "Exc RequestException ''unreachable''"]
    by simp
  have "get_property_details offline_env (JString [])
          = JObject [(''error'', JString ''Lookup error: unreachable'')]"
    by (simp add: get_property_details_def offline_env_def)
  then have c2: "handle_tool_call offline_env ''call_2'' (Some ''get_property_details'') ''{}'' []
     = (Inr (), [ConversationItemCreate ''call_2''
                   (JObject [(''error'', JString ''Lookup error: unreachable'')]),
                 ResponseCreate])"
    using t [where E = offline_env and arguments = "''{}''" and kvs = "[]" and d = "[]"
               and call_id = "''call_2''" and name = "Some ''get_property_details''"
               and args = "JObject []"
               and r = "JObject [(''error'', JString ''Lookup error: unreachable'')]"]
    by (simp add: dict_get_def)
  have "search_call ?E [] = ?listing"
    by (simp add: search_call_def search_properties_def search_response_def build_filters_def
        format_property_def dict_get_def Let_def)
  then have c3: "handle_tool_call ?E ''call_3'' (Some ''search_properties'') ''{}'' []
     = (Inr (), [ConversationItemCreate ''call_3'' ?listing, ResponseCreate])"
    using t [where E = ?E and arguments = "''{}''" and kvs = "[]" and d = "[]"
               and call_id = "''call_3''" and name = "Some ''search_properties''"
               and args = "JObject []" and r = ?listing and n = 1 and sh = "JInt 1"
               and fs = "[JObject [(''reference'', JString ''A1''),
                         (''title'', JString ''Flat''), (''type'', JNull), (''location'', JNull),
                         (''price_qar'', JNull), (''bedrooms'', JNull), (''bathrooms'', JNull)]]"]
    by (simp add: dict_get_def)
  have c4: "handle_tool_call offline_env ''call_4'' (Some ''book_viewing'') ''{}'' []
     = (Inr (), [ConversationItemCreate ''call_4''
                   (JObject [(''error'', JString ''Unknown tool called.'')]),
                 ResponseCreate])"
    using t [where E = offline_env and arguments = "''{}''" and d = "[]"
               and call_id = "''call_4''" and name = "Some ''book_viewing''"
               and args = "JObject []"
               and r = "JObject [(''error'', JString ''Unknown tool called.'')]"]
    by simp
  have c5: "handle_tool_call offline_env ''call_5'' (Some ''get_property_details'') ''not json'' []
     = (Inr (), [LogError ('' Tool execution failed: '' @ ''Expecting value: line 1 column 1 (char 0)''),
                 LogError (replicate 50 (CHR ''=''))])"
    using t [where E = offline_env and arguments = "''not json''" and d = "[]"
               and call_id = "''call_5''" and name = "Some ''get_property_details''"
               and e = "Exc ValueError ''Expecting value: line 1 column 1 (char 0)''"]
    by simp
  from c1 c2 c3 c4 c5 show ?thesis by (intro conjI)
qed

text \<open>
  Claim C1 as stated fails on an argument text that is not JSON: the dispatcher sends no
  function-call-output item and no response-create; it only logs the failure.
\<close>

theorem undecodable_arguments_counterexample:
  "handle_tool_call (sample_env (\<lambda>p. Inr (Response 200 (Inr (JObject [])))))
      ''call_1'' (Some ''search_properties'') ''not json'' []
     = (Inr (), [LogError '' Tool execution failed: Expecting value: line 1 column 1 (char 0)'',
                 LogError (replicate 50 (CHR ''=''))])"
  by (simp add: handle_tool_call_def handle_tool_call_try_def)

text \<open>
  Claim C10. \<^verbatim>\<open>handle_tool_call\<close> never raises: whatever the body of its
  \<^verbatim>\<open>try\<close> raises is caught and logged. That covers an argument text that does
  not decode, an exception while the result is computed or summarised, a failing send of
  the result, and a failing response-create after a successful send.
\<close>

theorem handle_tool_call_never_raises:
  "fst (handle_tool_call E call_id name arguments d) = Inr ()
   \<and> (\<forall>e d1. handle_tool_call_try E call_id name arguments d = (Inl e, d1)
        \<longrightarrow> snd (handle_tool_call E call_id name arguments d)
              = d1 @ [LogError ('' Tool execution failed: '' @ exc_str e),
                      LogError (replicate 50 (CHR ''=''))])
   \<and> (\<forall>e. json_loads E arguments = Inl e
        \<longrightarrow> handle_tool_call_try E call_id name arguments d = (Inl e, d))
   \<and> (\<forall>args e. json_loads E arguments = Inr args \<and> tool_output E name args = Inl e
        \<longrightarrow> handle_tool_call_try E call_id name arguments d = (Inl e, d))
   \<and> (\<forall>args r e. json_loads E arguments = Inr args \<and> tool_output E name args = Inr r
          \<and> io_fault E d (ConversationItemCreate call_id r) = Some e
        \<longrightarrow> handle_tool_call_try E call_id name arguments d = (Inl e, d))
   \<and> (\<forall>args r e. json_loads E arguments = Inr args \<and> tool_output E name args = Inr r
          \<and> io_fault E d (ConversationItemCreate call_id r) = None
          \<and> io_fault E (d @ [ConversationItemCreate call_id r]) ResponseCreate = Some e
        \<longrightarrow> handle_tool_call_try E call_id name arguments d
              = (Inl e, d @ [ConversationItemCreate call_id r]))"
proof (intro conjI allI impI)
  show "fst (handle_tool_call E call_id name arguments d) = Inr ()"
    by (simp add: handle_tool_call_def split: prod.splits sum.splits)
next
  fix e d1
  assume "handle_tool_call_try E call_id name arguments d = (Inl e, d1)"
  then show "snd (handle_tool_call E call_id name arguments d)
              = d1 @ [LogError ('' Tool execution failed: '' @ exc_str e),
                      LogError (replicate 50 (CHR ''=''))]"
    by (simp add: handle_tool_call_def)
next
  fix e assume "json_loads E arguments = Inl e"
  then show "handle_tool_call_try E call_id name arguments d = (Inl e, d)"
    by (rule handle_tool_call_try_decode_error)
next
  fix args e assume "json_loads E arguments = Inr args \<and> tool_output E name args = Inl e"
  then show "handle_tool_call_try E call_id name arguments d = (Inl e, d)"
    by (simp add: handle_tool_call_try_def)
next
  fix args r e
  assume "json_loads E arguments = Inr args \<and> tool_output E name args = Inr r
          \<and> io_fault E d (ConversationItemCreate call_id r) = Some e"
  then show "handle_tool_call_try E call_id name arguments d = (Inl e, d)"
    by (simp add: handle_tool_call_try_sent perform_fail)
next
  fix args r e
  assume "json_loads E arguments = Inr args \<and> tool_output E name args = Inr r
          \<and> io_fault E d (ConversationItemCreate call_id r) = None
          \<and> io_fault E (d @ [ConversationItemCreate call_id r]) ResponseCreate = Some e"
  then show "handle_tool_call_try E call_id name arguments d
              = (Inl e, d @ [ConversationItemCreate call_id r])"
    by (simp add: handle_tool_call_try_sent perform_ok perform_fail)
qed


theorem handle_tool_call_never_raises_witness:
  "fst (handle_tool_call
         ((sample_env (\<lambda>p. Inr (Response 200 (Inr (JObject [])))))
            \<lparr> io_fault := (\<lambda>d a. Some (Exc ConnectionError ''connection closed'')) \<rparr>)
         ''call_1'' (Some ''book_viewing'') ''{}'' []) = Inr ()
   \<and> snd (handle_tool_call
         ((sample_env (\<lambda>p. Inr (Response 200 (Inr (JObject [])))))
            \<lparr> io_fault := (\<lambda>d a. Some (Exc ConnectionError ''connection closed'')) \<rparr>)
         ''call_1'' (Some ''book_viewing'') ''{}'' [])
       = [LogError '' Tool execution failed: connection closed'',
          LogError (replicate 50 (CHR ''=''))]"
  using handle_tool_call_never_raises [of
         "(sample_env (\<lambda>p. Inr (Response 200 (Inr (JObject [])))))
            \<lparr> io_fault := (\<lambda>d a. Some (Exc ConnectionError ''connection closed'')) \<rparr>"
         "''call_1''" "Some ''book_viewing''" "''{}''" "[]"]
  by (simp add: sample_env_def tool_output_unknown)

text \<open>
  The result summary written to the log can itself raise, after the result has been
  computed and before it is sent. Here the backend returns one listing with no title and a
  count of 1: the summary slices the title, which is None, and the dispatcher ends in its
  handler without having sent the result it holds.
\<close>

lemma untitled_listing_result_not_sent:
  "handle_tool_call
     (sample_env (\<lambda>p. Inr (Response 200 (Inr (JObject
        [(''value'', JArray [JObject [(''reference_number'', JString ''A1'')]]),
         (''@odata.count'', JInt 1)])))))
     ''call_1'' (Some ''search_properties'') ''{}'' []
   = (Inr (), [LogError ('' Tool execution failed: '' @ quote @ ''NoneType'' @ quote
                          @ '' object is not subscriptable''),
               LogError (replicate 50 (CHR ''=''))])"
  by (simp add: handle_tool_call_def handle_tool_call_try_def tool_output_def
      search_properties_def search_response_def build_filters_def format_property_def
      log_search_summary_def log_property_def dict_get_def Let_def)

section \<open>Properties of the audio transcoder\<close>

declare ratecv_emit.simps [simp del]

lemma length_samples_of: "length (samples_of bs) = length bs div 2"
  by (induction bs rule: samples_of.induct) simp_all

lemma length_concat_bytes16: "length (concat (map bytes16 xs)) = 2 * length xs"
  by (induction xs) (simp_all add: bytes16_def)

lemma ratecv_emit_stop:
  assumes "\<not> (d \<ge> 0 \<and> i > 0)"
  shows "ratecv_emit i o' p c d = ([], d)"
  by (subst ratecv_emit.simps) (simp only: assms if_False)

lemma ratecv_emit_neg: "d < 0 \<Longrightarrow> ratecv_emit i o' p c d = ([], d)"
  by (simp add: ratecv_emit_stop)

lemma ratecv_emit_step:
  "d \<ge> 0 \<Longrightarrow> i > 0 \<Longrightarrow> ratecv_emit i o' p c d =
     (trunc_div (p * d + c * (o' - d)) o' div 65536 # fst (ratecv_emit i o' p c (d - i)),
      snd (ratecv_emit i o' p c (d - i)))"
  by (subst ratecv_emit.simps) (simp split: prod.splits)

lemma emit_down: "\<exists>v. ratecv_emit 3 1 p c 0 = ([v], -3)"
  by (simp add: ratecv_emit_step ratecv_emit_neg)

lemma emit_up0: "\<exists>v. ratecv_emit 1 3 p c 0 = ([v], -1)"
  by (simp add: ratecv_emit_step ratecv_emit_neg)

lemma emit_up2: "\<exists>v1 v2 v3. ratecv_emit 1 3 p c 2 = ([v1, v2, v3], -1)"
  by (simp add: ratecv_emit_step ratecv_emit_neg)

lemma length_loop_down:
  "d \<in> {-3, -2, -1} \<Longrightarrow>
   int (length (ratecv_loop 3 1 p c d xs)) = (int (length xs) + 3 + d) div 3"
proof (induction xs arbitrary: p c d)
  case Nil
  then show ?case by auto
next
  case (Cons s xs)
  from Cons.prems consider "d = -3" | "d = -2" | "d = -1" by auto
  then show ?case
  proof cases
    case 1
    then show ?thesis using Cons.IH [of "-2" c "s * 65536"] by simp
  next
    case 2
    then show ?thesis using Cons.IH [of "-1" c "s * 65536"] by simp
  next
    case 3
    obtain v where "ratecv_emit 3 1 c (s * 65536) 0 = ([v], -3)" using emit_down by blast
    then show ?thesis using 3 Cons.IH [of "-3" c "s * 65536"] by simp
  qed
qed

lemma length_loop_up1:
  "length (ratecv_loop 1 3 p c (-1) xs) = 3 * length xs"
proof (induction xs arbitrary: p c)
  case Nil
  show ?case by simp
next
  case (Cons s xs)
  obtain v1 v2 v3 where "ratecv_emit 1 3 c (s * 65536) 2 = ([v1, v2, v3], -1)"
    using emit_up2 by blast
  then show ?case using Cons.IH [of c "s * 65536"] by simp
qed

lemma length_loop_up3:
  "length (ratecv_loop 1 3 p c (-3) xs) = 3 * length xs - 2"
proof (cases xs)
  case Nil
  then show ?thesis by simp
next
  case (Cons s rest)
  obtain v where "ratecv_emit 1 3 c (s * 65536) 0 = ([v], -1)" using emit_up0 by blast
  then show ?thesis using Cons length_loop_up1 [of c "s * 65536" rest] by simp
qed

lemma trunc_div_zero [simp]: "trunc_div 0 b = 0"
  by (simp add: trunc_div_def)

lemma emit_silence:
  "set (fst (ratecv_emit i o' 0 0 d)) \<subseteq> {0}"
proof (induction i o' "0::int" "0::int" d rule: ratecv_emit.induct)
  case (1 inrate outrate d)
  show ?case
  proof (cases "d \<ge> 0 \<and> inrate > 0")
    case True
    then show ?thesis using 1 by (simp add: ratecv_emit_step)
  next
    case False
    then show ?thesis by (simp add: ratecv_emit_stop)
  qed
qed

lemma loop_silence:
  "set (ratecv_loop i o' 0 0 d (replicate n 0)) \<subseteq> {0}"
proof (induction n arbitrary: d)
  case 0
  show ?case by simp
next
  case (Suc n)
  obtain out d' where e: "ratecv_emit i o' 0 0 (d + o') = (out, d')"
    by (cases "ratecv_emit i o' 0 0 (d + o')")
  then have "set out \<subseteq> {0}" using emit_silence [of i o' "d + o'"] by simp
  then show ?case using e Suc [of "d + o'"] Suc [of d'] by auto
qed

lemma all_zero_replicate: "set xs \<subseteq> {z} \<Longrightarrow> xs = replicate (length xs) z"
  by (induction xs) auto

lemma samples_of_silence: "samples_of (replicate (2 * n) 0) = replicate n 0"
  by (induction n) (simp_all add: sample16_def)

lemma bytes16_silence: "concat (map bytes16 (replicate n 0)) = replicate (2 * n) 0"
  by (induction n) (simp_all add: bytes16_def)

lemma bytes16_silence_rep: "concat (replicate n (bytes16 0)) = replicate (2 * n) 0"
  by (induction n) (simp_all add: bytes16_def)

lemma st_14linear2ulaw_zero: "st_14linear2ulaw 0 = 0xFF"
  by (simp add: st_14linear2ulaw_def search_seg_def seg_uend_def)

lemma st_ulaw2linear16_FF: "st_ulaw2linear16 0xFF = 0"
  by (simp add: st_ulaw2linear16_def)




lemma gcd_rates: "gcd (24000::int) 8000 = 8000" "gcd (8000::int) 24000 = 8000"
  by simp_all

lemma ratecv_down:
  assumes "length pcm mod 2 = 0"
  shows "ratecv pcm 24000 8000
           = Inr (concat (map bytes16 (ratecv_loop 3 1 0 0 (-1) (samples_of pcm))))"
  using assms by (simp add: ratecv_def gcd_rates)

lemma ratecv_up:
  assumes "length pcm mod 2 = 0"
  shows "ratecv pcm 8000 24000
           = Inr (concat (map bytes16 (ratecv_loop 1 3 0 0 (-3) (samples_of pcm))))"
  using assms by (simp add: ratecv_def gcd_rates)

lemma length_ulaw2lin: "length (ulaw2lin m) = 2 * length m"
  by (induction m) (simp_all add: ulaw2lin_def bytes16_def)

lemma uplink_total:
  assumes "length pcm mod 2 = 0"
  shows "resample_pcm_24k_to_mulaw_8k pcm
           = Inr (map (\<lambda>s. st_14linear2ulaw (s div 4))
                   (samples_of (concat (map bytes16 (ratecv_loop 3 1 0 0 (-1) (samples_of pcm))))))"
  by (simp add: resample_pcm_24k_to_mulaw_8k_def ratecv_down [OF assms] lin2ulaw_def
      length_concat_bytes16)

lemma downlink_total:
  "resample_mulaw_8k_to_pcm_24k mulaw
     = Inr (concat (map bytes16 (ratecv_loop 1 3 0 0 (-3) (samples_of (ulaw2lin mulaw)))))"
  by (simp add: resample_mulaw_8k_to_pcm_24k_def ratecv_up length_ulaw2lin)


lemma roundtrip_arith:
  fixes L m out :: nat
  assumes "L mod 2 = 0" "m = (L div 2 + 2) div 3" "out = 2 * (3 * m - 2)"
  shows "out \<le> L \<and> L - out \<le> 4"
proof -
  define n where "n = L div 2"
  have L: "L = 2 * n" using assms(1) n_def by presburger
  have a: "3 * m \<le> n + 2" using assms(2) n_def by simp
  have b: "n + 2 < 3 * m + 3"
    using assms(2) n_def by (simp add: div_less_iff_less_mult algebra_simps)
  show ?thesis using L a b assms(3) by linarith
qed

lemma length_uplink:
  assumes "length pcm mod 2 = 0" "resample_pcm_24k_to_mulaw_8k pcm = Inr mulaw"
  shows "length mulaw = (length pcm div 2 + 2) div 3"
proof -
  have "int (length (ratecv_loop 3 1 0 0 (-1) (samples_of pcm))) = (int (length pcm div 2) + 2) div 3"
    using length_loop_down [of "-1" 0 0 "samples_of pcm"] by (simp add: length_samples_of)
  then have "length (ratecv_loop 3 1 0 0 (-1) (samples_of pcm)) = (length pcm div 2 + 2) div 3"
    by linarith
  then show ?thesis
    using assms(2) by (auto simp: uplink_total [OF assms(1)] length_samples_of length_concat_bytes16)
qed

lemma length_downlink:
  assumes "resample_mulaw_8k_to_pcm_24k mulaw = Inr out"
  shows "length out = 2 * (3 * length mulaw - 2)"
  using assms
  by (auto simp: downlink_total length_concat_bytes16 length_loop_up3 length_samples_of length_ulaw2lin)

lemma uplink_silence:
  "resample_pcm_24k_to_mulaw_8k (replicate (2 * n) 0)
     = Inr (replicate (length (ratecv_loop 3 1 0 0 (-1) (replicate n 0))) 0xFF)"
proof -
  define k where "k = length (ratecv_loop 3 1 0 0 (-1) (replicate n 0))"
  have "ratecv_loop 3 1 0 0 (-1) (replicate n 0) = replicate k 0"
    unfolding k_def using loop_silence [of 3 1 "-1" n] by (rule all_zero_replicate)
  then show ?thesis
    unfolding k_def [symmetric]
    by (simp add: uplink_total samples_of_silence bytes16_silence_rep st_14linear2ulaw_zero)
qed

lemma ulaw2lin_silence: "ulaw2lin (replicate k 0xFF) = replicate (2 * k) 0"
  by (induction k) (simp_all add: ulaw2lin_def st_ulaw2linear16_FF bytes16_def)

lemma downlink_silence:
  "resample_mulaw_8k_to_pcm_24k (replicate k 0xFF)
     = Inr (replicate (2 * length (ratecv_loop 1 3 0 0 (-3) (replicate k 0))) 0)"
proof -
  define j where "j = length (ratecv_loop 1 3 0 0 (-3) (replicate k 0))"
  have "ratecv_loop 1 3 0 0 (-3) (replicate k 0) = replicate j 0"
    unfolding j_def using loop_silence [of 1 3 "-3" k] by (rule all_zero_replicate)
  then show ?thesis
    unfolding j_def [symmetric]
    by (simp add: downlink_total ulaw2lin_silence samples_of_silence bytes16_silence_rep)
qed

text \<open>
  Claim C7. A frame of whole 16-bit samples (an even number of bytes) goes through the
  uplink conversion and back without an error. With \<open>n\<close> samples in, the companded
  frame has \<open>(n + 2) div 3\<close> bytes and the frame that comes back has
  \<open>3 * ((n + 2) div 3) - 2\<close> samples: never longer than the input and at most two
  samples (four bytes) shorter, which is less than the six bytes one companded sample
  stands for at 24 kHz. A silent frame (all bytes zero) comes back silent.
\<close>

theorem roundtrip_length_and_silence:
  assumes "length pcm mod 2 = 0"
  shows "\<exists>mulaw out.
           resample_pcm_24k_to_mulaw_8k pcm = Inr mulaw
         \<and> resample_mulaw_8k_to_pcm_24k mulaw = Inr out
         \<and> length mulaw = (length pcm div 2 + 2) div 3
         \<and> length out = 2 * (3 * length mulaw - 2)
         \<and> length out \<le> length pcm \<and> length pcm - length out \<le> 4
         \<and> (pcm = replicate (length pcm) 0 \<longrightarrow> out = replicate (length out) 0)"
proof -
  obtain mulaw where up: "resample_pcm_24k_to_mulaw_8k pcm = Inr mulaw"
    using uplink_total [OF assms] by blast
  obtain out where down: "resample_mulaw_8k_to_pcm_24k mulaw = Inr out"
    using downlink_total by blast
  have lm: "length mulaw = (length pcm div 2 + 2) div 3"
    using length_uplink [OF assms up] .
  have lo: "length out = 2 * (3 * length mulaw - 2)"
    using length_downlink [OF down] .
  have le: "length out \<le> length pcm" "length pcm - length out \<le> 4"
    using roundtrip_arith [OF assms lm lo] by simp_all
  have silent: "out = replicate (length out) 0" if z: "pcm = replicate (length pcm) 0"
  proof -
    have "2 * (length pcm div 2) = length pcm" using assms by presburger
    then have "pcm = replicate (2 * (length pcm div 2)) 0" using z by simp
    then have "resample_pcm_24k_to_mulaw_8k pcm
        = Inr (replicate (length (ratecv_loop 3 1 0 0 (-1) (replicate (length pcm div 2) 0))) 0xFF)"
      using uplink_silence [of "length pcm div 2"] by simp
    with up have "mulaw = replicate (length mulaw) 0xFF" by auto
    then have "resample_mulaw_8k_to_pcm_24k mulaw
        = Inr (replicate (2 * length (ratecv_loop 1 3 0 0 (-3) (replicate (length mulaw) 0))) 0)"
      using downlink_silence [of "length mulaw"] by simp
    with down show ?thesis by auto
  qed
  from up down lm lo le silent show ?thesis by blast
qed

theorem roundtrip_length_and_silence_witness:
  "length [0::byte, 0, 0, 0, 0, 0] mod 2 = 0
   \<and> resample_pcm_24k_to_mulaw_8k [0, 0, 0, 0, 0, 0] = Inr [0xFF]
   \<and> resample_mulaw_8k_to_pcm_24k [0xFF] = Inr [0, 0]"
proof -
  have even: "length [0::byte, 0, 0, 0, 0, 0] mod 2 = 0" by simp
  from roundtrip_length_and_silence [OF even] obtain mulaw out where
    a: "resample_pcm_24k_to_mulaw_8k [0, 0, 0, 0, 0, 0] = Inr mulaw"
      "resample_mulaw_8k_to_pcm_24k mulaw = Inr out"
      "length mulaw = 1" "length out = 2" "out = replicate (length out) 0"
    by auto
  have "[0::byte, 0, 0, 0, 0, 0] = replicate (2 * 3) 0" by (simp add: numeral_eq_Suc)
  then obtain k where "resample_pcm_24k_to_mulaw_8k [0, 0, 0, 0, 0, 0] = Inr (replicate k 0xFF)"
    using uplink_silence [of 3] by metis
  with a(1) have m: "mulaw = replicate k 0xFF" by simp
  with a(3) have "k = 1" by simp
  with m have "mulaw = [0xFF]" by simp
  moreover have "out = [0, 0]" using a(4,5) by (simp add: numeral_eq_Suc)
  ultimately show ?thesis using a even by simp
qed

section \<open>Properties of binary64 rounding\<close>

declare bit_length.simps [simp del]

lemma bit_length_0 [simp]: "bit_length 0 = 0"
  by (simp add: bit_length.simps)

lemma bit_length_pos: "n > 0 \<Longrightarrow> bit_length n = Suc (bit_length (n div 2))"
  by (subst bit_length.simps) simp

lemma bit_length_bounds:
  "n > 0 \<Longrightarrow> 2 ^ (bit_length n - 1) \<le> n \<and> n < 2 ^ bit_length n"
proof (induction n rule: bit_length.induct)
  case (1 n)
  have bl: "bit_length n = Suc (bit_length (n div 2))" using 1(2) by (rule bit_length_pos)
  show ?case
  proof (cases "n div 2 = 0")
    case True
    with 1(2) have "n = 1" by (simp add: div_eq_0_iff) 
    with bl True show ?thesis by simp
  next
    case False
    then have ih: "2 ^ (bit_length (n div 2) - 1) \<le> n div 2 \<and> n div 2 < 2 ^ bit_length (n div 2)"
      using 1 by simp
    have "bit_length (n div 2) > 0" using False by (simp add: bit_length_pos)
    then obtain j where j: "bit_length (n div 2) = Suc j" by (cases "bit_length (n div 2)") auto
    from ih j have "2 * 2 ^ j \<le> n" "n < 2 * 2 ^ Suc j" by auto
    with bl j show ?thesis by simp
  qed
qed

lemma rne_ge: "of_int n \<le> y \<Longrightarrow> n \<le> rne y"
proof -
  assume "of_int n \<le> y"
  then have "n \<le> \<lfloor>y\<rfloor>" by (simp add: le_floor_iff)
  then show ?thesis by (simp add: rne_def Let_def)
qed

lemma rne_le: "y \<le> of_int n \<Longrightarrow> rne y \<le> n"
proof -
  assume a: "y \<le> of_int n"
  show ?thesis
  proof (cases "y = of_int n")
    case True
    then show ?thesis by (simp add: rne_def Let_def)
  next
    case False
    with a have "y < of_int n" by simp
    then have "\<lfloor>y\<rfloor> < n" by (simp add: floor_less_iff)
    then show ?thesis by (simp add: rne_def Let_def)
  qed
qed


lemma float_1_2_between: "1 < float_1_2" "float_1_2 < 6 / 5" "float_1_2 < 2"
  by (simp_all add: float_1_2_def)

lemma binade_unit: "1 \<le> x \<Longrightarrow> x < 2 \<Longrightarrow> binade x = 0"
proof -
  assume a: "1 \<le> x" "x < 2"
  then have "\<lfloor>x\<rfloor> = 1" by linarith
  with a show ?thesis by (simp add: binade_def bit_length_pos)
qed

lemma binade_large:
  assumes "2 \<le> x"
  shows "1 \<le> binade x \<and> 2 ^ nat (binade x) \<le> x"
proof -
  define n where "n = nat \<lfloor>x\<rfloor>"
  have n2: "2 \<le> n" using assms n_def by linarith
  have nx: "of_nat n \<le> x" using assms n_def by simp
  have b: "2 ^ (bit_length n - 1) \<le> n" "n < 2 ^ bit_length n"
    using bit_length_bounds [of n] n2 by simp_all
  have "bit_length n \<ge> 2"
  proof (rule ccontr)
    assume "\<not> 2 \<le> bit_length n"
    then have "bit_length n \<le> 1" by simp
    then have "(2::nat) ^ bit_length n \<le> 2 ^ 1" by (intro power_increasing) simp_all
    with b(2) n2 show False by simp
  qed
  then have e: "binade x = int (bit_length n) - 1" "1 \<le> binade x"
    using assms by (simp_all add: binade_def n_def)
  have "nat (binade x) = bit_length n - 1" using e by simp
  then have "(2::rat) ^ nat (binade x) = of_nat (2 ^ (bit_length n - 1))" by simp
  also have "\<dots> \<le> of_nat n" using b(1) by (simp only: of_nat_le_iff)
  finally have "(2::rat) ^ nat (binade x) \<le> of_nat n" .
  then have "2 ^ nat (binade x) \<le> x" using nx by (rule order_trans)
  with e(2) show ?thesis by (rule_tac conjI)
qed

lemma binade_small:
  assumes "0 < x" "x < 1"
  shows "binade x \<le> - 1 \<and> x * 2 ^ nat (- binade x - 1) < 1"
proof -
  define n where "n = nat (\<lceil>1 / x\<rceil> - 1)"
  have y: "1 < 1 / x" using assms by simp
  then have c2: "2 \<le> \<lceil>1 / x\<rceil>" by linarith
  then have n1: "1 \<le> n" unfolding n_def by linarith
  have "of_int (\<lceil>1 / x\<rceil> - 1) < 1 / x" by linarith
  moreover have "of_nat n = (of_int (\<lceil>1 / x\<rceil> - 1) :: rat)"
    unfolding n_def using c2 by (intro of_nat_nat) linarith
  ultimately have nx: "of_nat n < 1 / x" by simp
  have b: "2 ^ (bit_length n - 1) \<le> n" using bit_length_bounds [of n] n1 by simp
  have k1: "1 \<le> bit_length n" using n1 by (simp add: bit_length_pos)
  have e: "binade x = - int (bit_length n)" using assms by (simp add: binade_def n_def)
  then have "nat (- binade x - 1) = bit_length n - 1" by simp
  then have "(2::rat) ^ nat (- binade x - 1) = of_nat (2 ^ (bit_length n - 1))" by simp
  also have "\<dots> \<le> of_nat n" using b by (simp only: of_nat_le_iff)
  also have "\<dots> < 1 / x" by (rule nx)
  finally have "2 ^ nat (- binade x - 1) < 1 / x" .
  then have "x * 2 ^ nat (- binade x - 1) < 1"
    using assms(1) by (simp add: field_simps)
  with e k1 show ?thesis by simp
qed


lemma float_round_pos:
  assumes "0 < x"
  shows "float_round x =
     (if binade x \<ge> 52 then of_int (rne (x / 2 ^ nat (binade x - 52))) * 2 ^ nat (binade x - 52)
      else of_int (rne (x * 2 ^ nat (52 - binade x))) / 2 ^ nat (52 - binade x))"
  using assms by (simp add: float_round_def Let_def)

lemma float_round_unit:
  assumes "1 \<le> x" "x < 2"
  shows "float_round x = of_int (rne (x * 4503599627370496)) / 4503599627370496"
  using assms by (simp add: float_round_pos binade_unit)

lemma float_round_large:
  assumes "2 \<le> x"
  shows "2 \<le> float_round x"
proof -
  define e where "e = binade x"
  have e: "1 \<le> e" "2 ^ nat e \<le> x" using binade_large [OF assms] by (simp_all add: e_def)
  have two: "(2::rat) \<le> 2 ^ nat e"
    using e(1) power_increasing [of 1 "nat e" "2::rat"] by simp
  show ?thesis
  proof (cases "e \<ge> 52")
    case True
    define m where "m = nat (e - 52)"
    have ne: "nat e = m + 52" using True by (simp add: m_def)
    have "(2::rat) ^ 52 * 2 ^ m \<le> x" using e(2) by (simp add: ne power_add mult.commute)
    then have "of_int (2 ^ 52) \<le> x / 2 ^ m" by (simp add: pos_le_divide_eq)
    then have "2 ^ 52 \<le> rne (x / 2 ^ m)" by (rule rne_ge)
    then have "(of_int (2 ^ 52) :: rat) \<le> of_int (rne (x / 2 ^ m))" by (simp only: of_int_le_iff)
    then have "(2::rat) ^ 52 * 2 ^ m \<le> of_int (rne (x / 2 ^ m)) * 2 ^ m"
      by (simp add: mult_right_mono)
    moreover have "float_round x = of_int (rne (x / 2 ^ m)) * 2 ^ m"
      using assms True by (simp add: float_round_pos e_def [symmetric] m_def)
    ultimately have "2 ^ nat e \<le> float_round x" by (simp add: ne power_add mult.commute)
    with two show ?thesis by simp
  next
    case False
    define m where "m = nat (52 - e)"
    have ne: "nat e + m = 52" using False e(1) by (simp add: m_def)
    have "2 ^ nat e * (2::rat) ^ m \<le> x * 2 ^ m" using e(2) by (simp add: mult_right_mono)
    then have "of_int (2 ^ 52) \<le> x * 2 ^ m"
      by (simp add: power_add [symmetric] ne)
    then have "2 ^ 52 \<le> rne (x * 2 ^ m)" by (rule rne_ge)
    then have "(of_int (2 ^ 52) :: rat) \<le> of_int (rne (x * 2 ^ m))" by (simp only: of_int_le_iff)
    then have "(2::rat) ^ (nat e + m) \<le> of_int (rne (x * 2 ^ m))" by (simp add: ne)
    then have "(2::rat) ^ nat e \<le> of_int (rne (x * 2 ^ m)) / 2 ^ m"
      by (simp add: power_add pos_le_divide_eq)
    moreover have "float_round x = of_int (rne (x * 2 ^ m)) / 2 ^ m"
      using assms False by (simp add: float_round_pos e_def [symmetric] m_def)
    ultimately have "2 ^ nat e \<le> float_round x" by simp
    with two show ?thesis by simp
  qed
qed

lemma float_round_small:
  assumes "0 < x" "x < 1"
  shows "float_round x \<le> 1"
proof -
  define e where "e = binade x"
  define k where "k = nat (- e - 1)"
  have e: "e \<le> - 1" "x * 2 ^ k < 1" using binade_small [OF assms] by (simp_all add: e_def k_def)
  define m where "m = nat (52 - e)"
  have mk: "m = k + 53" using e(1) by (simp add: m_def k_def)
  have "x * 2 ^ m = (x * 2 ^ k) * 2 ^ 53" by (simp add: mk power_add)
  also have "\<dots> \<le> 1 * 2 ^ 53" using e(2) by (intro mult_right_mono) simp_all
  finally have "x * 2 ^ m \<le> of_int (2 ^ 53)" by simp
  then have "rne (x * 2 ^ m) \<le> 2 ^ 53" by (rule rne_le)
  then have "(of_int (rne (x * 2 ^ m)) :: rat) \<le> of_int (2 ^ 53)" by (simp only: of_int_le_iff)
  also have "(of_int (2 ^ 53) :: rat) \<le> 2 ^ m" 
    using power_increasing [of 53 m "2::rat"] by (simp add: mk)
  finally have "of_int (rne (x * 2 ^ m)) / 2 ^ m \<le> (1::rat)" by (simp add: pos_divide_le_eq)
  moreover have "float_round x = of_int (rne (x * 2 ^ m)) / 2 ^ m"
    using assms e(1) by (simp add: float_round_pos e_def [symmetric] m_def)
  ultimately show ?thesis by simp
qed

lemma float_round_nonpos:
  assumes "x \<le> 0"
  shows "float_round x \<le> 0"
proof (cases "x = 0")
  case True
  then show ?thesis by (simp add: float_round_def)
next
  case False
  with assms have neg: "x < 0" by simp
  have a: "0 \<le> rne (\<bar>x\<bar> / 2 ^ n)" for n by (rule rne_ge) simp
  have b: "0 \<le> rne (\<bar>x\<bar> * 2 ^ n)" for n by (rule rne_ge) simp
  have "0 \<le> (of_int (rne (\<bar>x\<bar> / 2 ^ n)) :: rat) * 2 ^ n" for n using a [of n] by simp
  moreover have "0 \<le> (of_int (rne (\<bar>x\<bar> * 2 ^ n)) :: rat) / 2 ^ n" for n using b [of n] by simp
  ultimately show ?thesis
    using neg by (simp add: float_round_def Let_def mult_le_0_iff)
qed

lemma rne_le_even:
  assumes "y \<le> of_int n + 1 / 2" "even n"
  shows "rne y \<le> n"
proof -
  have f: "\<lfloor>y\<rfloor> \<le> n" using assms(1) by linarith
  show ?thesis
  proof (cases "\<lfloor>y\<rfloor> = n")
    case True
    then have "y - of_int \<lfloor>y\<rfloor> \<le> 1 / 2" using assms(1) by simp
    with True assms(2) show ?thesis by (simp add: rne_def Let_def)
  next
    case False
    with f have "\<lfloor>y\<rfloor> + 1 \<le> n" by simp
    then show ?thesis by (simp add: rne_def Let_def)
  qed
qed

lemma rne_ge_half:
  assumes "of_int n - 1 / 2 < y"
  shows "n \<le> rne y"
proof -
  have f: "n - 1 \<le> \<lfloor>y\<rfloor>" using assms by linarith
  show ?thesis
  proof (cases "\<lfloor>y\<rfloor> = n - 1")
    case True
    then have "of_int \<lfloor>y\<rfloor> = (of_int n :: rat) - 1" by simp
    then have "y - of_int \<lfloor>y\<rfloor> > 1 / 2" using assms by simp
    with True show ?thesis by (simp add: rne_def Let_def)
  next
    case False
    with f have "n \<le> \<lfloor>y\<rfloor>" by simp
    then show ?thesis by (simp add: rne_def Let_def)
  qed
qed

lemma gate_iff: "float_round x < float_1_2 \<longleftrightarrow> x \<le> float_1_2 - 1 / 2 ^ 53"
proof -
  consider (neg) "x \<le> 0" | (small) "0 < x" "x < 1" | (unit) "1 \<le> x" "x < 2" | (large) "2 \<le> x"
    by linarith
  then show ?thesis
  proof cases
    case neg
    then have "float_round x \<le> 0" by (rule float_round_nonpos)
    with neg show ?thesis by (simp add: float_1_2_def)
  next
    case small
    then have "float_round x \<le> 1" by (rule float_round_small)
    with small show ?thesis by (simp add: float_1_2_def)
  next
    case large
    then have "2 \<le> float_round x" by (rule float_round_large)
    with large show ?thesis by (simp add: float_1_2_def)
  next
    case unit
    have fr: "float_round x = of_int (rne (x * 4503599627370496)) / 4503599627370496"
      using unit by (rule float_round_unit)
    show ?thesis
    proof (cases "x \<le> float_1_2 - 1 / 2 ^ 53")
      case True
      then have "x * 4503599627370496 \<le> of_int 5404319552844594 + 1 / 2"
        by (simp add: float_1_2_def)
      then have "rne (x * 4503599627370496) \<le> 5404319552844594"
        by (rule rne_le_even) simp
      then have "(of_int (rne (x * 4503599627370496)) :: rat) \<le> of_int 5404319552844594"
        by (simp only: of_int_le_iff)
      with True show ?thesis by (simp add: fr float_1_2_def)
    next
      case False
      then have "of_int 5404319552844595 - 1 / 2 < x * 4503599627370496"
        by (simp add: float_1_2_def)
      then have "5404319552844595 \<le> rne (x * 4503599627370496)" by (rule rne_ge_half)
      then have "(of_int 5404319552844595 :: rat) \<le> of_int (rne (x * 4503599627370496))"
        by (simp only: of_int_le_iff)
      with False show ?thesis by (simp add: fr float_1_2_def)
    qed
  qed
qed

lemma gate_open [simp]:
  assumes "6 / 5 \<le> x"
  shows "\<not> float_round x < float_1_2"
proof -
  have "\<not> x \<le> float_1_2 - 1 / 2 ^ 53" using assms by (simp add: float_1_2_def)
  then show ?thesis unfolding gate_iff .
qed

lemma gate_shut [simp]:
  assumes "x \<le> 1"
  shows "float_round x < float_1_2"
proof -
  have "x \<le> float_1_2 - 1 / 2 ^ 53" using assms by (simp add: float_1_2_def)
  then show ?thesis unfolding gate_iff .
qed


section \<open>Properties of the telephony client-to-agent loop\<close>

lemma downlink_never_fails: "\<exists>pcm. resample_mulaw_8k_to_pcm_24k mulaw = Inr pcm"
  by (simp add: downlink_total)

lemma twilio_media_decoded:
  assumes "subscript_key packet ''media'' = Inr m" "subscript_key m ''payload'' = Inr payload"
    "b64decode E payload = Inr mulaw" "resample_mulaw_8k_to_pcm_24k mulaw = Inr pcm"
  shows "twilio_media E packet d = perform E (InputAudioAppend (JString (b64encode E pcm))) d"
  using assms by (simp add: twilio_media_def)

lemma twilio_media_undecodable:
  assumes "ebind (subscript_key packet ''media'') (\<lambda>m.
             ebind (subscript_key m ''payload'') (b64decode E)) = Inl e"
  shows "twilio_media E packet d = (Inl e, d)"
proof -
  have "ebind (subscript_key packet ''media'') (\<lambda>m.
           ebind (subscript_key m ''payload'') (\<lambda>payload.
           ebind (b64decode E payload) (\<lambda>mulaw_payload.
           resample_mulaw_8k_to_pcm_24k mulaw_payload))) = Inl e"
    using assms
    by (cases "subscript_key packet ''media''";
        cases "subscript_key (projr (subscript_key packet ''media'')) ''payload''";
        cases "b64decode E (projr (subscript_key (projr (subscript_key packet ''media'')) ''payload''))")
       auto
  then show ?thesis by (simp add: twilio_media_def)
qed

lemma media_step:
  assumes "json_loads E data = Inr packet" "subscript_key packet ''event'' = Inr (JString ''media'')"
  shows "twilio_forward_to_azure_step E now data v d =
     (if float_round (now - start_time v) < float_1_2 then (Inr Continue, v, d)
      else (case twilio_media E packet d of
              (Inl e, d1) \<Rightarrow> (Inl e, v, d1)
            | (Inr u, d1) \<Rightarrow> (Inr Continue, v, d1)))"
  using assms by (simp add: twilio_forward_to_azure_step_def)

lemma offline_env_sel [simp]:
  "json_loads offline_env = sample_loads"
  "b64decode offline_env = sample_b64decode"
  "b64encode offline_env = sample_b64encode"
  "io_fault offline_env = (\<lambda>done a. None)"
  by (simp_all add: offline_env_def)

lemma resample_FF: "resample_mulaw_8k_to_pcm_24k [0xFF] = Inr [0, 0]"
proof -
  obtain pcm where p: "resample_mulaw_8k_to_pcm_24k [0xFF] = Inr pcm"
    using downlink_never_fails by blast
  obtain k where "resample_mulaw_8k_to_pcm_24k (replicate 1 0xFF) = Inr (replicate k 0)"
    using downlink_silence [of 1] by metis
  with p have "pcm = replicate k 0" by simp
  moreover have "length pcm = 2" using length_downlink [OF p] by simp
  ultimately have "pcm = [0, 0]" by (simp add: numeral_eq_Suc)
  with p show ?thesis by simp
qed

lemma twilio_run_over: "over s \<Longrightarrow> twilio_run E ts s = s"
  by (induction ts) (simp_all add: twilio_step_def)

lemma twilio_init_sel [simp]:
  "vars twilio_init = \<lparr> stream_sid = JNull, stream_start_event = False, start_time = 0 \<rparr>"
  "to_azure twilio_init = Running" "to_client twilio_init = Running"
  "greeting twilio_init = AwaitingStart" "actions twilio_init = []" "over twilio_init = False"
  by (simp_all add: twilio_init_def)

lemma twilio_step_media_forwarded:
  assumes "\<not> over s" "to_azure s = Running"
    and "twilio_forward_to_azure_step E now data (vars s) (actions s) = (Inr Continue, v, d)"
  shows "twilio_step E (FromClient now (Text data)) s = s\<lparr> vars := v, actions := d \<rparr>"
  using assms by (simp add: twilio_step_def)

lemma twilio_step_failed:
  assumes "\<not> over s" "to_azure s = Running"
    and "twilio_forward_to_azure_step E now data (vars s) (actions s) = (Inl e, v, d)"
    and "exc_cls e \<noteq> WebSocketDisconnect"
  shows "twilio_step E (FromClient now (Text data)) s
           = s\<lparr> vars := v, to_azure := Failed e, over := True,
                 actions := session_error ''Twilio Session Error: '' e d \<rparr>"
  using assms by (simp add: twilio_step_def)

text \<open>The three outcomes of a media frame, and a start envelope, as steps of the session.\<close>

lemma twilio_step_gate_shut:
  assumes "\<not> over s" "to_azure s = Running"
    and "json_loads E data = Inr packet"
    and "subscript_key packet ''event'' = Inr (JString ''media'')"
    and "float_round (now - start_time (vars s)) < float_1_2"
  shows "twilio_step E (FromClient now (Text data)) s = s"
proof -
  have "twilio_forward_to_azure_step E now data (vars s) (actions s)
          = (Inr Continue, vars s, actions s)"
    using assms(5) by (simp add: media_step [OF assms(3,4)])
  then have "twilio_step E (FromClient now (Text data)) s
          = s\<lparr> vars := vars s, actions := actions s \<rparr>"
    using assms(1,2) by (intro twilio_step_media_forwarded) simp_all
  then show ?thesis by simp
qed

lemma twilio_step_gate_open:
  assumes "\<not> over s" "to_azure s = Running"
    and "json_loads E data = Inr packet"
    and "subscript_key packet ''event'' = Inr (JString ''media'')"
    and "\<not> float_round (now - start_time (vars s)) < float_1_2"
    and "subscript_key packet ''media'' = Inr m" and "subscript_key m ''payload'' = Inr payload"
    and "b64decode E payload = Inr mulaw" and "resample_mulaw_8k_to_pcm_24k mulaw = Inr pcm"
    and "io_fault E (actions s) (InputAudioAppend (JString (b64encode E pcm))) = None"
  shows "twilio_step E (FromClient now (Text data)) s
           = s\<lparr> actions := actions s @ [InputAudioAppend (JString (b64encode E pcm))] \<rparr>"
proof -
  have tm: "twilio_media E packet (actions s)
      = perform E (InputAudioAppend (JString (b64encode E pcm))) (actions s)"
    using assms(6-9) by (rule twilio_media_decoded)
  have "twilio_forward_to_azure_step E now data (vars s) (actions s)
          = (Inr Continue, vars s,
             actions s @ [InputAudioAppend (JString (b64encode E pcm))])"
    using assms(5,10) by (simp add: media_step [OF assms(3,4)] tm perform_ok)
  then have "twilio_step E (FromClient now (Text data)) s
          = s\<lparr> vars := vars s,
                actions := actions s @ [InputAudioAppend (JString (b64encode E pcm))] \<rparr>"
    using assms(1,2) by (intro twilio_step_media_forwarded) simp_all
  then show ?thesis by simp
qed

lemma twilio_step_undecodable:
  assumes "\<not> over s" "to_azure s = Running"
    and "json_loads E data = Inr packet"
    and "subscript_key packet ''event'' = Inr (JString ''media'')"
    and "\<not> float_round (now - start_time (vars s)) < float_1_2"
    and "ebind (subscript_key packet ''media'') (\<lambda>m.
             ebind (subscript_key m ''payload'') (b64decode E)) = Inl e"
    and "exc_cls e \<noteq> WebSocketDisconnect"
  shows "twilio_step E (FromClient now (Text data)) s
           = s\<lparr> to_azure := Failed e, over := True,
                 actions := actions s @ [LogError (''Twilio Session Error: '' @ exc_str e),
                                         ClientClose] \<rparr>"
proof -
  have "twilio_forward_to_azure_step E now data (vars s) (actions s) = (Inl e, vars s, actions s)"
    using assms(5) by (simp add: media_step [OF assms(3,4)] twilio_media_undecodable [OF assms(6)])
  then have "twilio_step E (FromClient now (Text data)) s
           = s\<lparr> vars := vars s, to_azure := Failed e, over := True,
                 actions := session_error ''Twilio Session Error: '' e (actions s) \<rparr>"
    using assms(1,2,7) by (intro twilio_step_failed) simp_all
  then show ?thesis by (simp add: session_error_def)
qed





lemma twilio_run_client_only:
  "to_azure s \<noteq> Running \<Longrightarrow> list_all from_client ts \<Longrightarrow> twilio_run E ts s = s"
proof (induction ts)
  case Nil
  show ?case by simp
next
  case (Cons t ts)
  from Cons.prems(2) obtain now inp where "t = FromClient now inp" by (cases t) simp_all
  with Cons.prems(1) have "twilio_step E t s = s" by (simp add: twilio_step_def)
  with Cons show ?case by simp
qed




text \<open>
  Claim C8. In a fresh telephony session no start envelope has been handled: the start
  event is not set, the stream identifier is None and the start time is 0. A media frame
  received then, with the clock at 1.2 or more, passes the gate and is transcoded and
  appended to the agent's input buffer.
\<close>

theorem media_before_start_is_forwarded:
  assumes "json_loads E data = Inr packet"
    and "subscript_key packet ''event'' = Inr (JString ''media'')"
    and "now \<ge> 6 / 5"
    and "subscript_key packet ''media'' = Inr m" and "subscript_key m ''payload'' = Inr payload"
    and "b64decode E payload = Inr mulaw" and "resample_mulaw_8k_to_pcm_24k mulaw = Inr pcm"
    and "io_fault E [] (InputAudioAppend (JString (b64encode E pcm))) = None"
  shows "twilio_run E [FromClient now (Text data)] twilio_init
           = twilio_init\<lparr> actions := [InputAudioAppend (JString (b64encode E pcm))] \<rparr>
       \<and> \<not> stream_start_event (vars twilio_init) \<and> start_time (vars twilio_init) = 0
       \<and> stream_sid (vars twilio_init) = JNull"
proof -
  have g: "\<not> float_round (now - start_time (vars twilio_init)) < float_1_2"
    using gate_open [OF assms(3)] by simp
  have "twilio_step E (FromClient now (Text data)) twilio_init
          = twilio_init\<lparr> actions := actions twilio_init
                           @ [InputAudioAppend (JString (b64encode E pcm))] \<rparr>"
    by (rule twilio_step_gate_open [OF _ _ assms(1,2) g assms(4-7)]) (simp_all add: assms(8))
  then show ?thesis by simp
qed

theorem media_before_start_is_forwarded_witness:
  "twilio_run offline_env [FromClient 5 (Text media_text)] twilio_init
     = twilio_init\<lparr> actions := [InputAudioAppend (JString ''AAA='')] \<rparr>
   \<and> \<not> stream_start_event (vars twilio_init)"
  using media_before_start_is_forwarded [of offline_env media_text
      "JObject [(''event'', JString ''media''), (''media'', JObject [(''payload'', JString ''/w=='')])]"
      5 "JObject [(''payload'', JString ''/w=='')]" "JString ''/w==''" "[0xFF]" "[0, 0]"]
  by (simp add: sample_b64decode_def sample_b64encode_def resample_FF)

text \<open>
  Claim C3, as amended. The conversion of an incoming chunk itself cannot fail: every byte
  string is a valid companded frame. A media frame received by the running client-to-agent
  loop while the audio gate is shut (the test \<^verbatim>\<open>now - start_time < 1.2\<close> holds)
  is dropped before its payload is read, malformed or not, and the loop goes on. A media
  frame received with the gate open, for which reading the payload or decoding its base64
  text raises (an exception that is not the disconnect the loop handles), ends the loop:
  the loop has no handler for it, so it handles no later frame or disconnect of the
  client, and the session handler logs the error and closes the client channel. The
  process goes on.
\<close>

theorem undecodable_chunk_ends_session:
  "(\<forall>mulaw. \<exists>pcm. resample_mulaw_8k_to_pcm_24k mulaw = Inr pcm)
   \<and> (\<not> over s \<and> to_azure s = Running
        \<and> json_loads E data = Inr packet
        \<and> subscript_key packet ''event'' = Inr (JString ''media'')
        \<and> float_round (now - start_time (vars s)) < float_1_2
      \<longrightarrow> twilio_step E (FromClient now (Text data)) s = s)
   \<and> (\<not> over s \<and> to_azure s = Running
        \<and> json_loads E data = Inr packet
        \<and> subscript_key packet ''event'' = Inr (JString ''media'')
        \<and> \<not> float_round (now - start_time (vars s)) < float_1_2
        \<and> ebind (subscript_key packet ''media'') (\<lambda>m.
             ebind (subscript_key m ''payload'') (b64decode E)) = Inl e
        \<and> exc_cls e \<noteq> WebSocketDisconnect
        \<and> list_all from_client rest
      \<longrightarrow> twilio_run E (FromClient now (Text data) # rest) s
            = s\<lparr> to_azure := Failed e, over := True,
                  actions := actions s @ [LogError (''Twilio Session Error: '' @ exc_str e),
                                          ClientClose] \<rparr>)"
proof (intro conjI)
  show "\<forall>mulaw. \<exists>pcm. resample_mulaw_8k_to_pcm_24k mulaw = Inr pcm"
    using downlink_never_fails by simp
next
  show "\<not> over s \<and> to_azure s = Running
        \<and> json_loads E data = Inr packet
        \<and> subscript_key packet ''event'' = Inr (JString ''media'')
        \<and> float_round (now - start_time (vars s)) < float_1_2
      \<longrightarrow> twilio_step E (FromClient now (Text data)) s = s"
  proof (rule impI, (erule conjE)+)
    assume "\<not> over s" "to_azure s = Running" "json_loads E data = Inr packet"
      "subscript_key packet ''event'' = Inr (JString ''media'')"
      "float_round (now - start_time (vars s)) < float_1_2"
    then show "twilio_step E (FromClient now (Text data)) s = s"
      by (rule twilio_step_gate_shut)
  qed
next
  show "\<not> over s \<and> to_azure s = Running
        \<and> json_loads E data = Inr packet
        \<and> subscript_key packet ''event'' = Inr (JString ''media'')
        \<and> \<not> float_round (now - start_time (vars s)) < float_1_2
        \<and> ebind (subscript_key packet ''media'') (\<lambda>m.
             ebind (subscript_key m ''payload'') (b64decode E)) = Inl e
        \<and> exc_cls e \<noteq> WebSocketDisconnect
        \<and> list_all from_client rest
      \<longrightarrow> twilio_run E (FromClient now (Text data) # rest) s
            = s\<lparr> to_azure := Failed e, over := True,
                  actions := actions s @ [LogError (''Twilio Session Error: '' @ exc_str e),
                                          ClientClose] \<rparr>"
  proof (rule impI, (erule conjE)+)
    assume a: "\<not> over s" "to_azure s = Running" "json_loads E data = Inr packet"
      "subscript_key packet ''event'' = Inr (JString ''media'')"
      "\<not> float_round (now - start_time (vars s)) < float_1_2"
      "ebind (subscript_key packet ''media'') (\<lambda>m.
             ebind (subscript_key m ''payload'') (b64decode E)) = Inl e"
      "exc_cls e \<noteq> WebSocketDisconnect"
      and rest: "list_all from_client rest"
    let ?s = "s\<lparr> to_azure := Failed e, over := True,
                  actions := actions s @ [LogError (''Twilio Session Error: '' @ exc_str e),
                                          ClientClose] \<rparr>"
    have st: "twilio_step E (FromClient now (Text data)) s = ?s"
      using a by (rule twilio_step_undecodable)
    have "twilio_run E (FromClient now (Text data) # rest) s = twilio_run E rest ?s"
      by (simp add: st)
    also have "\<dots> = ?s"
      by (rule twilio_run_client_only [OF _ rest]) simp
    finally show "twilio_run E (FromClient now (Text data) # rest) s = ?s" .
  qed
qed

theorem undecodable_chunk_ends_session_witness:
  "twilio_step offline_env (FromClient (21 / 2) (Text bad_media_text))
       (twilio_step offline_env (FromClient 10 (Text start_text)) twilio_init)
     = twilio_step offline_env (FromClient 10 (Text start_text)) twilio_init
   \<and> twilio_run offline_env
       [FromClient 2 (Text bad_media_text), FromClient 3 (Text media_text), FromClient 4 Disconnect]
       twilio_init
     = twilio_init\<lparr> to_azure := Failed (Exc BinasciiError
           ''Invalid base64-encoded string: number of data characters (1) cannot be 1 more than a multiple of 4''),
         over := True,
         actions := [LogError (''Twilio Session Error: '' @
           ''Invalid base64-encoded string: number of data characters (1) cannot be 1 more than a multiple of 4''),
           ClientClose] \<rparr>"
proof -
  let ?bp = "JObject [(''event'', JString ''media''), (''media'', JObject [(''payload'', JString ''A'')])]"
  let ?e = "Exc BinasciiError
           ''Invalid base64-encoded string: number of data characters (1) cannot be 1 more than a multiple of 4''"
  let ?s = "twilio_step offline_env (FromClient 10 (Text start_text)) twilio_init"
  have s: "?s = twilio_init\<lparr> vars := \<lparr> stream_sid = JString ''MZ1'', stream_start_event = True,
                                        start_time = 10 \<rparr> \<rparr>"
    by (simp add: twilio_step_def twilio_forward_to_azure_step_def twilio_init_def)
  have run: "\<not> over ?s" "to_azure ?s = Running" "start_time (vars ?s) = 10"
    unfolding s by simp_all
  have shut: "float_round (21 / 2 - start_time (vars ?s)) < float_1_2"
    unfolding run(3) by (rule gate_shut) simp
  have opn: "\<not> float_round (2 - start_time (vars twilio_init)) < float_1_2"
    by simp
  have dec: "ebind (subscript_key ?bp ''media'') (\<lambda>m.
             ebind (subscript_key m ''payload'') (b64decode offline_env)) = Inl ?e"
    by (simp add: sample_b64decode_def)
  note t = undecodable_chunk_ends_session
  have a: "twilio_step offline_env (FromClient (21 / 2) (Text bad_media_text)) ?s = ?s"
    using t [of ?s offline_env bad_media_text ?bp "21 / 2" ?e "[]"] run(1,2) shut
    by simp
  have b: "twilio_run offline_env
       [FromClient 2 (Text bad_media_text), FromClient 3 (Text media_text), FromClient 4 Disconnect]
       twilio_init
     = twilio_init\<lparr> to_azure := Failed ?e, over := True,
         actions := actions twilio_init @ [LogError (''Twilio Session Error: '' @ exc_str ?e),
           ClientClose] \<rparr>"
    using t [of twilio_init offline_env bad_media_text ?bp 2 ?e
                 "[FromClient 3 (Text media_text), FromClient 4 Disconnect]"] opn dec
    by simp
  from a b show ?thesis by simp
qed

text \<open>
  Claim C3 as stated fails: after a media frame whose payload is not base64 (one character),
  the next, well-formed frame is not forwarded and the call is closed; the same frame on
  its own would have been forwarded.
\<close>

theorem undecodable_chunk_counterexample:
  "actions (twilio_run offline_env
       [FromClient 2 (Text bad_media_text), FromClient 3 (Text media_text)] twilio_init)
     = [LogError (''Twilio Session Error: '' @
          ''Invalid base64-encoded string: number of data characters (1) cannot be 1 more than a multiple of 4''),
        ClientClose]
   \<and> over (twilio_run offline_env
       [FromClient 2 (Text bad_media_text), FromClient 3 (Text media_text)] twilio_init)
   \<and> actions (twilio_run offline_env [FromClient 3 (Text media_text)] twilio_init)
     = [InputAudioAppend (JString ''AAA='')]"
  by (simp add: twilio_step_def twilio_forward_to_azure_step_def twilio_media_def
      sample_b64decode_def sample_b64encode_def resample_FF session_error_def perform_def)

section \<open>Properties of the session bridges\<close>

lemma grows_refl [simp]: "grows_without_create d d"
  by (simp add: grows_without_create_def)

lemma grows_trans:
  "grows_without_create a b \<Longrightarrow> grows_without_create b c \<Longrightarrow> grows_without_create a c"
  unfolding grows_without_create_def by fastforce

lemma grows_snoc: "a \<noteq> ResponseCreate \<Longrightarrow> grows_without_create d (d @ [a])"
  by (simp add: grows_without_create_def)

lemma grows_perform:
  "a \<noteq> ResponseCreate \<Longrightarrow> grows_without_create d (snd (perform E a d))"
  by (cases "io_fault E d a") (simp_all add: perform_def grows_snoc)

lemma grows_session_error:
  "grows_without_create d d' \<Longrightarrow> grows_without_create d (session_error label e d')"
  unfolding grows_without_create_def session_error_def by fastforce

lemma grows_spawn: "grows_without_create d (spawn_tool_call c n a d)"
  by (simp add: spawn_tool_call_def grows_snoc split: option.splits)

lemma grows_count:
  "grows_without_create d d' \<Longrightarrow> count_list d' ResponseCreate = count_list d ResponseCreate"
  unfolding grows_without_create_def by (auto simp: count_list_0_iff)

lemma grows_browser_to_client:
  "grows_without_create d (snd (browser_forward_to_client_step E ev d))"
proof (cases ev)
  case SpeechStarted
  show ?thesis
  proof (cases "perform E (ClientSendJson (JObject [(''type'', JString ''clear_audio'')])) d")
    case (Pair r d1)
    have g1: "grows_without_create d d1"
      using grows_perform [of "ClientSendJson (JObject [(''type'', JString ''clear_audio'')])" d E] Pair
      by simp
    show ?thesis
    proof (cases r)
      case (Inl e)
      with Pair SpeechStarted g1 show ?thesis by simp
    next
      case (Inr u)
      have "grows_without_create d1 (snd (perform E ResponseCancel d1))"
        by (rule grows_perform) simp
      with g1 have "grows_without_create d (snd (perform E ResponseCancel d1))"
        by (rule grows_trans)
      with Pair SpeechStarted Inr show ?thesis by simp
    qed
  qed
qed (simp_all add: grows_perform grows_spawn)

lemma grows_twilio_to_client:
  "grows_without_create d (snd (twilio_forward_to_client_step E ev v d))"
proof (cases ev)
  case (ResponseAudioDelta delta)
  then show ?thesis by (simp add: grows_perform split: sum.splits)
next
  case SpeechStarted
  define first where "first = (if truthy (stream_sid v)
            then perform E (ClientSendJson (JObject
                   [(''event'', JString ''clear''), (''streamSid'', stream_sid v)])) d
            else (Inr (), d))"
  have g1: "grows_without_create d (snd first)"
    unfolding first_def by (simp add: grows_perform)
  show ?thesis
  proof (cases first)
    case (Pair r d1)
    show ?thesis
    proof (cases r)
      case (Inl e)
      with Pair SpeechStarted g1 show ?thesis by (simp add: first_def [symmetric])
    next
      case (Inr u)
      have "grows_without_create d1 (snd (perform E ResponseCancel d1))"
        by (rule grows_perform) simp
      with g1 Pair have "grows_without_create d (snd (perform E ResponseCancel d1))"
        using grows_trans by fastforce
      with Pair SpeechStarted Inr show ?thesis by (simp add: first_def [symmetric])
    qed
  qed
qed (simp_all add: grows_spawn)

lemma grows_perform_triple:
  "a \<noteq> ResponseCreate \<Longrightarrow>
   grows_without_create d (snd (snd (case perform E a d of (r, d1) \<Rightarrow> (r, b, d1))))"
  using grows_perform [of a d E] by (cases "perform E a d") simp

lemma grows_browser_to_azure:
  "grows_without_create d (snd (snd (browser_forward_to_azure_step E data b d)))"
  by (simp add: browser_forward_to_azure_step_def grows_perform_triple split: sum.splits)

lemma grows_twilio_media: "grows_without_create d (snd (twilio_media E packet d))"
  by (simp add: twilio_media_def grows_perform split: sum.splits)

lemma snd_media_result:
  "snd (snd (case p of (Inl e, d1) \<Rightarrow> (Inl e, v, d1) | (Inr u, d1) \<Rightarrow> (Inr c, v, d1))) = snd p"
  by (cases p; cases "fst p") auto

lemma grows_twilio_to_azure:
  "grows_without_create d (snd (snd (twilio_forward_to_azure_step E now data v d)))"
  by (simp add: twilio_forward_to_azure_step_def snd_media_result grows_twilio_media
      split: sum.splits)


lemma browser_to_azure_keeps_start:
  "b \<Longrightarrow> fst (snd (browser_forward_to_azure_step E data b d))"
  by (simp add: browser_forward_to_azure_step_def split: sum.splits prod.splits)

lemma browser_step_text:
  assumes "\<not> over s" "to_azure s = Running"
    and "browser_forward_to_azure_step E data (vars s) (actions s) = (r, v, d)"
  shows "greeting (browser_step E (FromClient now (Text data)) s) = greeting s
       \<and> vars (browser_step E (FromClient now (Text data)) s) = v
       \<and> (actions (browser_step E (FromClient now (Text data)) s) = d
          \<or> (\<exists>e. actions (browser_step E (FromClient now (Text data)) s)
                  = session_error ''Browser Session Error: '' e d))"
proof (cases r)
  case (Inl e)
  with assms show ?thesis by (cases "exc_cls e = WebSocketDisconnect") (auto simp: browser_step_def)
next
  case (Inr u)
  with assms show ?thesis by (simp add: browser_step_def)
qed

lemma browser_step_event:
  assumes "\<not> over s" "to_client s = Running"
    and "browser_forward_to_client_step E ev (actions s) = (r, d)"
  shows "greeting (browser_step E (FromAgent ev) s) = greeting s
       \<and> vars (browser_step E (FromAgent ev) s) = vars s
       \<and> (actions (browser_step E (FromAgent ev) s) = d
          \<or> (\<exists>e. actions (browser_step E (FromAgent ev) s)
                  = session_error ''Browser Session Error: '' e d))"
  using assms by (cases r) (auto simp: browser_step_def)

lemma browser_step_other:
  assumes "t \<noteq> GreeterTurn"
  shows "greeting (browser_step E t s) = greeting s
       \<and> grows_without_create (actions s) (actions (browser_step E t s))
       \<and> (vars s \<longrightarrow> vars (browser_step E t s))"
proof (cases "over s")
  case True
  then show ?thesis by (simp add: browser_step_def)
next
  case False
  show ?thesis
  proof (cases t)
    case GreeterTurn
    with assms show ?thesis by simp
  next
    case (FromAgent ev)
    show ?thesis
    proof (cases "to_client s = Running")
      case no: False
      with False FromAgent show ?thesis by (simp add: browser_step_def)
    next
      case True
      obtain r d where rd: "browser_forward_to_client_step E ev (actions s) = (r, d)"
        by (cases "browser_forward_to_client_step E ev (actions s)")
      have g: "grows_without_create (actions s) d"
        using grows_browser_to_client [of "actions s" E ev] rd by simp
      from browser_step_event [OF False True rd] g FromAgent show ?thesis
        using grows_session_error by fastforce
    qed
  next
    case (FromClient now inp)
    show ?thesis
    proof (cases "to_azure s = Running")
      case no: False
      with False FromClient show ?thesis by (simp add: browser_step_def)
    next
      case True
      show ?thesis
      proof (cases inp)
        case Disconnect
        with False True FromClient show ?thesis by (simp add: browser_step_def)
      next
        case (Text data)
        obtain r v d where rd: "browser_forward_to_azure_step E data (vars s) (actions s) = (r, v, d)"
          by (cases "browser_forward_to_azure_step E data (vars s) (actions s)")
        have g: "grows_without_create (actions s) d"
          using grows_browser_to_azure [of "actions s" E data "vars s"] rd by simp
        have k: "vars s \<longrightarrow> v"
        proof
          assume "vars s"
          then have "fst (snd (browser_forward_to_azure_step E data (vars s) (actions s)))"
            by (rule browser_to_azure_keeps_start)
          with rd show v by simp
        qed
        from browser_step_text [OF False True rd] g k FromClient Text show ?thesis
          using grows_session_error by fastforce
      qed
    qed
  qed
qed


lemma grows_extends: "grows_without_create d d' \<Longrightarrow> \<exists>tail. d' = d @ tail"
  unfolding grows_without_create_def by fastforce

lemma browser_greeter_turn:
  "browser_step E GreeterTurn s =
     (if over s \<or> greeting s \<noteq> AwaitingStart \<or> \<not> vars s then s
      else case io_fault E (actions s) ResponseCreate of
             None \<Rightarrow> s\<lparr> greeting := Greeted, actions := actions s @ [ResponseCreate] \<rparr>
           | Some e \<Rightarrow> s\<lparr> over := True,
                            actions := session_error ''Browser Session Error: '' e (actions s) \<rparr>)"
  by (cases "greeting s") (simp_all add: browser_step_def perform_def split: option.splits)

lemma count_session_error [simp]:
  "count_list (session_error label e d) ResponseCreate = count_list d ResponseCreate"
  by (simp add: session_error_def)

lemma browser_step_inv:
  assumes "greeting_inv (vars s) s"
  shows "greeting_inv (vars (browser_step E t s)) (browser_step E t s)"
proof (cases "t = GreeterTurn")
  case False
  from browser_step_other [OF False, of E s] assms show ?thesis
    by (auto simp: greeting_inv_def dest: grows_count)
next
  case True
  show ?thesis
  proof (cases "over s \<or> greeting s \<noteq> AwaitingStart \<or> \<not> vars s")
    case stay: True
    then have "browser_step E GreeterTurn s = s" by (simp add: browser_greeter_turn)
    with True assms show ?thesis by simp
  next
    case go: False
    with assms have c0: "count_list (actions s) ResponseCreate = 0"
      by (simp add: greeting_inv_def)
    show ?thesis
    proof (cases "io_fault E (actions s) ResponseCreate")
      case None
      with go have "browser_step E GreeterTurn s
          = s\<lparr> greeting := Greeted, actions := actions s @ [ResponseCreate] \<rparr>"
        by (simp add: browser_greeter_turn)
      with True go c0 show ?thesis by (simp add: greeting_inv_def)
    next
      case (Some e)
      with go have "browser_step E GreeterTurn s
          = s\<lparr> over := True, actions := session_error ''Browser Session Error: '' e (actions s) \<rparr>"
        by (simp add: browser_greeter_turn)
      with True go c0 show ?thesis by (simp add: greeting_inv_def)
    qed
  qed
qed

lemma browser_run_inv:
  "greeting_inv (vars s) s \<Longrightarrow> greeting_inv (vars (browser_run E ts s)) (browser_run E ts s)"
  by (induction ts arbitrary: s) (simp_all add: browser_step_inv)

lemma browser_step_extends: "\<exists>tail. actions (browser_step E t s) = actions s @ tail"
proof (cases "t = GreeterTurn")
  case False
  from browser_step_other [OF False, of E s] show ?thesis by (simp add: grows_extends)
next
  case True
  then show ?thesis
    by (simp add: browser_greeter_turn session_error_def split: option.splits)
qed

lemma browser_run_extends: "\<exists>tail. actions (browser_run E ts s) = actions s @ tail"
proof (induction ts arbitrary: s)
  case Nil
  show ?case by simp
next
  case (Cons t ts)
  obtain t1 where t1: "actions (browser_step E t s) = actions s @ t1"
    using browser_step_extends by blast
  obtain t2 where "actions (browser_run E ts (browser_step E t s)) = actions (browser_step E t s) @ t2"
    using Cons by blast
  with t1 show ?case by simp
qed

lemma browser_start_from_message:
  assumes "fst (snd (browser_forward_to_azure_step E data b d))"
  shows "b \<or> (\<exists>message. json_loads E data = Inr message
                \<and> subscript_key message ''type'' = Inr (JString ''start''))"
proof (cases "json_loads E data")
  case (Inl e)
  with assms show ?thesis by (simp add: browser_forward_to_azure_step_def)
next
  case (Inr message)
  show ?thesis
  proof (cases "subscript_key message ''type''")
    case (Inl e)
    with assms Inr show ?thesis by (simp add: browser_forward_to_azure_step_def)
  next
    case ty: (Inr ty)
    show ?thesis
    proof (cases "ty = JString ''start''")
      case True
      with Inr ty show ?thesis by simp
    next
      case False
      with assms Inr ty have b
        by (simp add: browser_forward_to_azure_step_def split: sum.splits prod.splits if_splits)
      then show ?thesis by simp
    qed
  qed
qed

lemma browser_step_started:
  assumes "vars (browser_step E t s)"
  shows "vars s \<or> (\<exists>now data message. t = FromClient now (Text data)
            \<and> json_loads E data = Inr message
            \<and> subscript_key message ''type'' = Inr (JString ''start''))"
proof (cases "vars s")
  case True
  then show ?thesis by simp
next
  case False
  have ns: "\<not> over s" using assms False by (auto simp: browser_step_def)
  show ?thesis
  proof (cases t)
    case GreeterTurn
    with assms False show ?thesis by (simp add: browser_greeter_turn)
  next
    case (FromAgent ev)
    show ?thesis
    proof (cases "to_client s = Running")
      case no: False
      with assms False FromAgent ns show ?thesis by (simp add: browser_step_def)
    next
      case True
      obtain r d where rd: "browser_forward_to_client_step E ev (actions s) = (r, d)"
        by (cases "browser_forward_to_client_step E ev (actions s)")
      from browser_step_event [OF ns True rd] assms False FromAgent show ?thesis by simp
    qed
  next
    case (FromClient now inp)
    show ?thesis
    proof (cases "to_azure s = Running")
      case no: False
      with assms False FromClient ns show ?thesis by (simp add: browser_step_def)
    next
      case True
      show ?thesis
      proof (cases inp)
        case Disconnect
        with assms False FromClient ns True show ?thesis by (simp add: browser_step_def)
      next
        case (Text data)
        obtain r v d where rd: "browser_forward_to_azure_step E data (vars s) (actions s) = (r, v, d)"
          by (cases "browser_forward_to_azure_step E data (vars s) (actions s)")
        from browser_step_text [OF ns True rd] assms FromClient Text have v by simp
        with rd have "fst (snd (browser_forward_to_azure_step E data (vars s) (actions s)))" by simp
        from browser_start_from_message [OF this] False FromClient Text show ?thesis by simp
      qed
    qed
  qed
qed

lemma browser_run_started:
  "vars (browser_run E ts s) \<Longrightarrow>
   vars s \<or> (\<exists>now data message. FromClient now (Text data) \<in> set ts
            \<and> json_loads E data = Inr message
            \<and> subscript_key message ''type'' = Inr (JString ''start''))"
proof (induction ts arbitrary: s)
  case Nil
  then show ?case by simp
next
  case (Cons t ts)
  from Cons.prems have "vars (browser_run E ts (browser_step E t s))" by simp
  from Cons.IH [OF this] consider (a) "vars (browser_step E t s)"
    | (b) "\<exists>now data message. FromClient now (Text data) \<in> set ts
            \<and> json_loads E data = Inr message
            \<and> subscript_key message ''type'' = Inr (JString ''start'')" by blast
  then show ?case
  proof cases
    case a
    from browser_step_started [OF a] show ?thesis by fastforce
  next
    case b
    then show ?thesis by fastforce
  qed
qed


lemma twilio_to_azure_keeps_start:
  "stream_start_event v \<Longrightarrow>
   stream_start_event (fst (snd (twilio_forward_to_azure_step E now data v d)))"
  by (simp add: twilio_forward_to_azure_step_def split: sum.splits prod.splits)

lemma twilio_step_text:
  assumes "\<not> over s" "to_azure s = Running"
    and "twilio_forward_to_azure_step E now data (vars s) (actions s) = (r, v, d)"
  shows "greeting (twilio_step E (FromClient now (Text data)) s) = greeting s
       \<and> vars (twilio_step E (FromClient now (Text data)) s) = v
       \<and> (actions (twilio_step E (FromClient now (Text data)) s) = d
          \<or> (\<exists>e. actions (twilio_step E (FromClient now (Text data)) s)
                  = session_error ''Twilio Session Error: '' e d))"
proof (cases r)
  case (Inl e)
  with assms show ?thesis by (cases "exc_cls e = WebSocketDisconnect") (auto simp: twilio_step_def)
next
  case (Inr c)
  with assms show ?thesis by (cases c) (simp_all add: twilio_step_def)
qed

lemma twilio_step_event:
  assumes "\<not> over s" "to_client s = Running"
    and "twilio_forward_to_client_step E ev (vars s) (actions s) = (r, d)"
  shows "greeting (twilio_step E (FromAgent ev) s) = greeting s
       \<and> vars (twilio_step E (FromAgent ev) s) = vars s
       \<and> (actions (twilio_step E (FromAgent ev) s) = d
          \<or> (\<exists>e. actions (twilio_step E (FromAgent ev) s)
                  = session_error ''Twilio Session Error: '' e d))"
  using assms by (cases r) (auto simp: twilio_step_def)

lemma twilio_step_other:
  assumes "t \<noteq> GreeterTurn"
  shows "greeting (twilio_step E t s) = greeting s
       \<and> grows_without_create (actions s) (actions (twilio_step E t s))
       \<and> (stream_start_event (vars s) \<longrightarrow> stream_start_event (vars (twilio_step E t s)))"
proof (cases "over s")
  case True
  then show ?thesis by (simp add: twilio_step_def)
next
  case False
  show ?thesis
  proof (cases t)
    case GreeterTurn
    with assms show ?thesis by simp
  next
    case (FromAgent ev)
    show ?thesis
    proof (cases "to_client s = Running")
      case no: False
      with False FromAgent show ?thesis by (simp add: twilio_step_def)
    next
      case True
      obtain r d where rd: "twilio_forward_to_client_step E ev (vars s) (actions s) = (r, d)"
        by (cases "twilio_forward_to_client_step E ev (vars s) (actions s)")
      have g: "grows_without_create (actions s) d"
        using grows_twilio_to_client [of "actions s" E ev "vars s"] rd by simp
      from twilio_step_event [OF False True rd] g FromAgent show ?thesis
        using grows_session_error by fastforce
    qed
  next
    case (FromClient now inp)
    show ?thesis
    proof (cases "to_azure s = Running")
      case no: False
      with False FromClient show ?thesis by (simp add: twilio_step_def)
    next
      case True
      show ?thesis
      proof (cases inp)
        case Disconnect
        with False True FromClient show ?thesis by (simp add: twilio_step_def)
      next
        case (Text data)
        obtain r v d where
          rd: "twilio_forward_to_azure_step E now data (vars s) (actions s) = (r, v, d)"
          by (cases "twilio_forward_to_azure_step E now data (vars s) (actions s)")
        have g: "grows_without_create (actions s) d"
          using grows_twilio_to_azure [of "actions s" E now data "vars s"] rd by simp
        have k: "stream_start_event (vars s) \<longrightarrow> stream_start_event v"
        proof
          assume "stream_start_event (vars s)"
          then have "stream_start_event
              (fst (snd (twilio_forward_to_azure_step E now data (vars s) (actions s))))"
            by (rule twilio_to_azure_keeps_start)
          with rd show "stream_start_event v" by simp
        qed
        from twilio_step_text [OF False True rd] g k FromClient Text show ?thesis
          using grows_session_error by fastforce
      qed
    qed
  qed
qed

lemma twilio_greeter_turn:
  "twilio_step E GreeterTurn s =
     (if over s then s
      else case greeting s of
        AwaitingStart \<Rightarrow> if stream_start_event (vars s) then s\<lparr> greeting := Sleeping \<rparr> else s
      | Sleeping \<Rightarrow>
          (case io_fault E (actions s) ResponseCreate of
             None \<Rightarrow> s\<lparr> greeting := Greeted, actions := actions s @ [ResponseCreate] \<rparr>
           | Some e \<Rightarrow> s\<lparr> over := True,
                            actions := session_error ''Twilio Session Error: '' e (actions s) \<rparr>)
      | Greeted \<Rightarrow> s)"
  by (cases "greeting s") (simp_all add: twilio_step_def perform_def split: option.splits)

lemma twilio_step_inv:
  assumes "greeting_inv (stream_start_event (vars s)) s"
  shows "greeting_inv (stream_start_event (vars (twilio_step E t s))) (twilio_step E t s)"
proof (cases "t = GreeterTurn")
  case False
  from twilio_step_other [OF False, of E s] assms show ?thesis
    by (auto simp: greeting_inv_def dest: grows_count)
next
  case True
  show ?thesis
  proof (cases "over s")
    case stay: True
    then have "twilio_step E GreeterTurn s = s" by (simp add: twilio_greeter_turn)
    with True assms show ?thesis by simp
  next
    case live: False
    show ?thesis
    proof (cases "greeting s")
      case AwaitingStart
      with True live assms show ?thesis by (simp add: twilio_greeter_turn greeting_inv_def)
    next
      case Greeted
      with True live assms show ?thesis by (simp add: twilio_greeter_turn)
    next
      case Sleeping
      with assms have c0: "count_list (actions s) ResponseCreate = 0"
        and st: "stream_start_event (vars s)"
        by (simp_all add: greeting_inv_def)
      show ?thesis
      proof (cases "io_fault E (actions s) ResponseCreate")
        case None
        with True live Sleeping c0 st show ?thesis
          by (simp add: twilio_greeter_turn greeting_inv_def)
      next
        case (Some e)
        with True live Sleeping c0 st show ?thesis
          by (simp add: twilio_greeter_turn greeting_inv_def)
      qed
    qed
  qed
qed

lemma twilio_run_inv:
  "greeting_inv (stream_start_event (vars s)) s \<Longrightarrow>
   greeting_inv (stream_start_event (vars (twilio_run E ts s))) (twilio_run E ts s)"
  by (induction ts arbitrary: s) (simp_all add: twilio_step_inv)

lemma twilio_step_extends: "\<exists>tail. actions (twilio_step E t s) = actions s @ tail"
proof (cases "t = GreeterTurn")
  case False
  from twilio_step_other [OF False, of E s] show ?thesis by (simp add: grows_extends)
next
  case True
  then show ?thesis
    by (simp add: twilio_greeter_turn session_error_def split: option.splits greeter.splits)
qed

lemma twilio_run_extends: "\<exists>tail. actions (twilio_run E ts s) = actions s @ tail"
proof (induction ts arbitrary: s)
  case Nil
  show ?case by simp
next
  case (Cons t ts)
  obtain t1 where t1: "actions (twilio_step E t s) = actions s @ t1"
    using twilio_step_extends by blast
  obtain t2 where "actions (twilio_run E ts (twilio_step E t s)) = actions (twilio_step E t s) @ t2"
    using Cons by blast
  with t1 show ?case by simp
qed

lemma twilio_start_from_message:
  assumes "stream_start_event (fst (snd (twilio_forward_to_azure_step E now data v d)))"
  shows "stream_start_event v \<or> (\<exists>packet. json_loads E data = Inr packet
                \<and> subscript_key packet ''event'' = Inr (JString ''start''))"
proof (cases "json_loads E data")
  case (Inl e)
  with assms show ?thesis by (simp add: twilio_forward_to_azure_step_def)
next
  case (Inr packet)
  show ?thesis
  proof (cases "subscript_key packet ''event''")
    case (Inl e)
    with assms Inr show ?thesis by (simp add: twilio_forward_to_azure_step_def)
  next
    case ev: (Inr event)
    show ?thesis
    proof (cases "event = JString ''start''")
      case True
      with Inr ev show ?thesis by simp
    next
      case False
      with assms Inr ev have "stream_start_event v"
        by (simp add: twilio_forward_to_azure_step_def split: sum.splits prod.splits if_splits)
      then show ?thesis by simp
    qed
  qed
qed

lemma twilio_step_started:
  assumes "stream_start_event (vars (twilio_step E t s))"
  shows "stream_start_event (vars s) \<or> (\<exists>now data packet. t = FromClient now (Text data)
            \<and> json_loads E data = Inr packet
            \<and> subscript_key packet ''event'' = Inr (JString ''start''))"
proof (cases "stream_start_event (vars s)")
  case True
  then show ?thesis by simp
next
  case False
  have ns: "\<not> over s" using assms False by (auto simp: twilio_step_def)
  show ?thesis
  proof (cases t)
    case GreeterTurn
    with assms False ns show ?thesis by (simp add: twilio_greeter_turn split: greeter.splits option.splits)
  next
    case (FromAgent ev)
    show ?thesis
    proof (cases "to_client s = Running")
      case no: False
      with assms False FromAgent ns show ?thesis by (simp add: twilio_step_def)
    next
      case True
      obtain r d where rd: "twilio_forward_to_client_step E ev (vars s) (actions s) = (r, d)"
        by (cases "twilio_forward_to_client_step E ev (vars s) (actions s)")
      from twilio_step_event [OF ns True rd] assms False FromAgent show ?thesis by simp
    qed
  next
    case (FromClient now inp)
    show ?thesis
    proof (cases "to_azure s = Running")
      case no: False
      with assms False FromClient ns show ?thesis by (simp add: twilio_step_def)
    next
      case True
      show ?thesis
      proof (cases inp)
        case Disconnect
        with assms False FromClient ns True show ?thesis by (simp add: twilio_step_def)
      next
        case (Text data)
        obtain r v d where
          rd: "twilio_forward_to_azure_step E now data (vars s) (actions s) = (r, v, d)"
          by (cases "twilio_forward_to_azure_step E now data (vars s) (actions s)")
        from twilio_step_text [OF ns True rd] assms FromClient Text
        have "stream_start_event v" by simp
        with rd have "stream_start_event
            (fst (snd (twilio_forward_to_azure_step E now data (vars s) (actions s))))" by simp
        from twilio_start_from_message [OF this] False FromClient Text show ?thesis by simp
      qed
    qed
  qed
qed

lemma twilio_run_started:
  "stream_start_event (vars (twilio_run E ts s)) \<Longrightarrow>
   stream_start_event (vars s) \<or> (\<exists>now data packet. FromClient now (Text data) \<in> set ts
            \<and> json_loads E data = Inr packet
            \<and> subscript_key packet ''event'' = Inr (JString ''start''))"
proof (induction ts arbitrary: s)
  case Nil
  then show ?case by simp
next
  case (Cons t ts)
  from Cons.prems have "stream_start_event (vars (twilio_run E ts (twilio_step E t s)))" by simp
  from Cons.IH [OF this] consider (a) "stream_start_event (vars (twilio_step E t s))"
    | (b) "\<exists>now data packet. FromClient now (Text data) \<in> set ts
            \<and> json_loads E data = Inr packet
            \<and> subscript_key packet ''event'' = Inr (JString ''start'')" by blast
  then show ?case
  proof cases
    case a
    from twilio_step_started [OF a] show ?thesis by fastforce
  next
    case b
    then show ?thesis by fastforce
  qed
qed


lemma browser_init_sel [simp]:
  "vars browser_init = False" "to_azure browser_init = Running" "to_client browser_init = Running"
  "greeting browser_init = AwaitingStart" "actions browser_init = []" "over browser_init = False"
  by (simp_all add: browser_init_def)

lemma browser_init_inv: "greeting_inv (vars browser_init) browser_init"
  by (simp add: greeting_inv_def)

lemma twilio_init_inv: "greeting_inv (stream_start_event (vars twilio_init)) twilio_init"
  by (simp add: greeting_inv_def)

text \<open>
  Claim C6. In either bridge and for every schedule, the trace of the session holds exactly
  one \<open>ResponseCreate\<close> when the greeting coroutine has issued its command, and none
  otherwise; when it has, a start message (browser) or start envelope (telephony) is among
  the frames received so far, so the command is never issued before the readiness signal.
  Once the signal is there and the session is live, the greeting coroutine's next turn
  (two turns in the telephony bridge, which sleeps 50 ms first) issues the command, the
  connection accepting it. Further readiness messages and further turns never add another:
  the count holds for every schedule. The commands of tool-dispatch tasks are not part of
  the session trace.
\<close>

theorem greeting_once:
  "count_list (actions (browser_run E ts browser_init)) ResponseCreate
     = (if greeting (browser_run E ts browser_init) = Greeted then 1 else 0)
   \<and> (greeting (browser_run E ts browser_init) = Greeted
        \<longrightarrow> (\<exists>now data message. FromClient now (Text data) \<in> set ts
               \<and> json_loads E data = Inr message
               \<and> subscript_key message ''type'' = Inr (JString ''start'')))
   \<and> (vars s \<and> \<not> over s \<and> greeting s = AwaitingStart
        \<and> io_fault E (actions s) ResponseCreate = None
        \<longrightarrow> browser_step E GreeterTurn s
              = s\<lparr> greeting := Greeted, actions := actions s @ [ResponseCreate] \<rparr>)
   \<and> count_list (actions (twilio_run E ts twilio_init)) ResponseCreate
     = (if greeting (twilio_run E ts twilio_init) = Greeted then 1 else 0)
   \<and> (greeting (twilio_run E ts twilio_init) = Greeted
        \<longrightarrow> (\<exists>now data packet. FromClient now (Text data) \<in> set ts
               \<and> json_loads E data = Inr packet
               \<and> subscript_key packet ''event'' = Inr (JString ''start'')))
   \<and> (stream_start_event (vars s') \<and> \<not> over s' \<and> greeting s' = AwaitingStart
        \<and> io_fault E (actions s') ResponseCreate = None
        \<longrightarrow> twilio_run E [GreeterTurn, GreeterTurn] s'
              = s'\<lparr> greeting := Greeted, actions := actions s' @ [ResponseCreate] \<rparr>)"
proof (intro conjI)
  have bi: "greeting_inv (vars (browser_run E ts browser_init)) (browser_run E ts browser_init)"
    using browser_init_inv by (rule browser_run_inv)
  then show "count_list (actions (browser_run E ts browser_init)) ResponseCreate
     = (if greeting (browser_run E ts browser_init) = Greeted then 1 else 0)"
    by (simp add: greeting_inv_def)
  show "greeting (browser_run E ts browser_init) = Greeted
        \<longrightarrow> (\<exists>now data message. FromClient now (Text data) \<in> set ts
               \<and> json_loads E data = Inr message
               \<and> subscript_key message ''type'' = Inr (JString ''start''))"
  proof
    assume "greeting (browser_run E ts browser_init) = Greeted"
    with bi have "vars (browser_run E ts browser_init)" by (simp add: greeting_inv_def)
    from browser_run_started [OF this]
    show "\<exists>now data message. FromClient now (Text data) \<in> set ts
               \<and> json_loads E data = Inr message
               \<and> subscript_key message ''type'' = Inr (JString ''start'')"
      by simp
  qed
  show "vars s \<and> \<not> over s \<and> greeting s = AwaitingStart
        \<and> io_fault E (actions s) ResponseCreate = None
        \<longrightarrow> browser_step E GreeterTurn s
              = s\<lparr> greeting := Greeted, actions := actions s @ [ResponseCreate] \<rparr>"
    by (simp add: browser_greeter_turn)
  have ti: "greeting_inv (stream_start_event (vars (twilio_run E ts twilio_init)))
              (twilio_run E ts twilio_init)"
    using twilio_init_inv by (rule twilio_run_inv)
  then show "count_list (actions (twilio_run E ts twilio_init)) ResponseCreate
     = (if greeting (twilio_run E ts twilio_init) = Greeted then 1 else 0)"
    by (simp add: greeting_inv_def)
  show "greeting (twilio_run E ts twilio_init) = Greeted
        \<longrightarrow> (\<exists>now data packet. FromClient now (Text data) \<in> set ts
               \<and> json_loads E data = Inr packet
               \<and> subscript_key packet ''event'' = Inr (JString ''start''))"
  proof
    assume "greeting (twilio_run E ts twilio_init) = Greeted"
    with ti have "stream_start_event (vars (twilio_run E ts twilio_init))"
      by (simp add: greeting_inv_def)
    from twilio_run_started [OF this]
    show "\<exists>now data packet. FromClient now (Text data) \<in> set ts
               \<and> json_loads E data = Inr packet
               \<and> subscript_key packet ''event'' = Inr (JString ''start'')"
      by simp
  qed
  show "stream_start_event (vars s') \<and> \<not> over s' \<and> greeting s' = AwaitingStart
        \<and> io_fault E (actions s') ResponseCreate = None
        \<longrightarrow> twilio_run E [GreeterTurn, GreeterTurn] s'
              = s'\<lparr> greeting := Greeted, actions := actions s' @ [ResponseCreate] \<rparr>"
    by (simp add: twilio_greeter_turn)
qed

theorem greeting_once_witness:
  "actions (browser_run offline_env
      [FromClient 0 (Text browser_start_text), FromClient 0 (Text browser_start_text),
       GreeterTurn, FromClient 0 (Text browser_start_text), GreeterTurn] browser_init)
     = [ResponseCreate]
   \<and> count_list (actions (browser_run offline_env
      [FromClient 0 (Text browser_start_text), FromClient 0 (Text browser_start_text),
       GreeterTurn, FromClient 0 (Text browser_start_text), GreeterTurn] browser_init))
        ResponseCreate = 1
   \<and> actions (twilio_run offline_env
      [GreeterTurn, FromClient 0 (Text start_text), FromClient 0 (Text start_text),
       GreeterTurn, GreeterTurn, FromClient 0 (Text start_text), GreeterTurn] twilio_init)
     = [ResponseCreate]
   \<and> count_list (actions (twilio_run offline_env
      [GreeterTurn, FromClient 0 (Text start_text), FromClient 0 (Text start_text),
       GreeterTurn, GreeterTurn, FromClient 0 (Text start_text), GreeterTurn] twilio_init))
        ResponseCreate = 1"
  using greeting_once [of offline_env
      "[FromClient 0 (Text browser_start_text), FromClient 0 (Text browser_start_text),
       GreeterTurn, FromClient 0 (Text browser_start_text), GreeterTurn]"]
    greeting_once [of offline_env
      "[GreeterTurn, FromClient 0 (Text start_text), FromClient 0 (Text start_text),
       GreeterTurn, GreeterTurn, FromClient 0 (Text start_text), GreeterTurn]"]
  by (simp add: browser_step_def browser_forward_to_azure_step_def
      twilio_step_def twilio_forward_to_azure_step_def perform_def)


lemma browser_speech_started_step:
  assumes "\<not> over s" "to_client s = Running"
    and "io_fault E (actions s) (ClientSendJson (JObject [(''type'', JString ''clear_audio'')])) = None"
    and "io_fault E (actions s @ [ClientSendJson (JObject [(''type'', JString ''clear_audio'')])])
           ResponseCancel = None"
  shows "browser_step E (FromAgent SpeechStarted) s
           = s\<lparr> actions := actions s
                  @ [ClientSendJson (JObject [(''type'', JString ''clear_audio'')]), ResponseCancel] \<rparr>"
  using assms by (simp add: browser_step_def perform_def)

lemma twilio_speech_started_step:
  assumes "\<not> over s" "to_client s = Running" "truthy (stream_sid (vars s))"
    and "io_fault E (actions s) (ClientSendJson (JObject
           [(''event'', JString ''clear''), (''streamSid'', stream_sid (vars s))])) = None"
    and "io_fault E (actions s @ [ClientSendJson (JObject
           [(''event'', JString ''clear''), (''streamSid'', stream_sid (vars s))])])
           ResponseCancel = None"
  shows "twilio_step E (FromAgent SpeechStarted) s
           = s\<lparr> actions := actions s
                  @ [ClientSendJson (JObject
                       [(''event'', JString ''clear''), (''streamSid'', stream_sid (vars s))]),
                     ResponseCancel] \<rparr>"
  using assms by (simp add: twilio_step_def perform_def)

lemma twilio_speech_started_no_stream:
  assumes "\<not> over s" "to_client s = Running" "\<not> truthy (stream_sid (vars s))"
    and "io_fault E (actions s) ResponseCancel = None"
  shows "twilio_step E (FromAgent SpeechStarted) s
           = s\<lparr> actions := actions s @ [ResponseCancel] \<rparr>"
  using assms by (simp add: twilio_step_def perform_def)

text \<open>
  Claim C4, as amended. In the browser bridge a speech-started event makes the
  agent-to-client loop send the clear signal and then the response-cancel command, and
  whatever the session does afterwards comes after both. The telephony bridge does the
  same when a stream identifier has been recorded; while none has (no start envelope yet,
  or an empty identifier), it sends no clear signal and issues the response-cancel alone.
  Each statement is for a live session whose channel and connection accept the commands.
\<close>

theorem barge_in:
  "(\<not> over s \<and> to_client s = Running
      \<and> io_fault E (actions s) (ClientSendJson (JObject [(''type'', JString ''clear_audio'')])) = None
      \<and> io_fault E (actions s @ [ClientSendJson (JObject [(''type'', JString ''clear_audio'')])])
           ResponseCancel = None
     \<longrightarrow> (\<exists>tail. actions (browser_run E (FromAgent SpeechStarted # rest) s)
            = actions s @ [ClientSendJson (JObject [(''type'', JString ''clear_audio'')]),
                           ResponseCancel] @ tail))
   \<and> (\<not> over s' \<and> to_client s' = Running \<and> truthy (stream_sid (vars s'))
      \<and> io_fault E (actions s') (ClientSendJson (JObject
           [(''event'', JString ''clear''), (''streamSid'', stream_sid (vars s'))])) = None
      \<and> io_fault E (actions s' @ [ClientSendJson (JObject
           [(''event'', JString ''clear''), (''streamSid'', stream_sid (vars s'))])])
           ResponseCancel = None
     \<longrightarrow> (\<exists>tail. actions (twilio_run E (FromAgent SpeechStarted # rest) s')
            = actions s' @ [ClientSendJson (JObject
                   [(''event'', JString ''clear''), (''streamSid'', stream_sid (vars s'))]),
                 ResponseCancel] @ tail))
   \<and> (\<not> over s' \<and> to_client s' = Running \<and> \<not> truthy (stream_sid (vars s'))
      \<and> io_fault E (actions s') ResponseCancel = None
     \<longrightarrow> (\<exists>tail. actions (twilio_run E (FromAgent SpeechStarted # rest) s')
            = actions s' @ [ResponseCancel] @ tail))"
proof (intro conjI impI)
  assume a: "\<not> over s \<and> to_client s = Running
      \<and> io_fault E (actions s) (ClientSendJson (JObject [(''type'', JString ''clear_audio'')])) = None
      \<and> io_fault E (actions s @ [ClientSendJson (JObject [(''type'', JString ''clear_audio'')])])
           ResponseCancel = None"
  define s1 where "s1 = s\<lparr> actions := actions s
                  @ [ClientSendJson (JObject [(''type'', JString ''clear_audio'')]), ResponseCancel] \<rparr>"
  have "browser_step E (FromAgent SpeechStarted) s = s1"
    unfolding s1_def using a by (intro browser_speech_started_step) simp_all
  moreover obtain tail where "actions (browser_run E rest s1) = actions s1 @ tail"
    using browser_run_extends by blast
  ultimately have "actions (browser_run E (FromAgent SpeechStarted # rest) s)
            = actions s @ [ClientSendJson (JObject [(''type'', JString ''clear_audio'')]),
                           ResponseCancel] @ tail"
    by (simp add: s1_def)
  then show "\<exists>tail. actions (browser_run E (FromAgent SpeechStarted # rest) s)
            = actions s @ [ClientSendJson (JObject [(''type'', JString ''clear_audio'')]),
                           ResponseCancel] @ tail"
    by (rule exI)
next
  assume a: "\<not> over s' \<and> to_client s' = Running \<and> truthy (stream_sid (vars s'))
      \<and> io_fault E (actions s') (ClientSendJson (JObject
           [(''event'', JString ''clear''), (''streamSid'', stream_sid (vars s'))])) = None
      \<and> io_fault E (actions s' @ [ClientSendJson (JObject
           [(''event'', JString ''clear''), (''streamSid'', stream_sid (vars s'))])])
           ResponseCancel = None"
  define s1 where "s1 = s'\<lparr> actions := actions s'
                  @ [ClientSendJson (JObject
                       [(''event'', JString ''clear''), (''streamSid'', stream_sid (vars s'))]),
                     ResponseCancel] \<rparr>"
  have "twilio_step E (FromAgent SpeechStarted) s' = s1"
    unfolding s1_def using a by (intro twilio_speech_started_step) simp_all
  moreover obtain tail where "actions (twilio_run E rest s1) = actions s1 @ tail"
    using twilio_run_extends by blast
  ultimately have "actions (twilio_run E (FromAgent SpeechStarted # rest) s')
            = actions s' @ [ClientSendJson (JObject
                   [(''event'', JString ''clear''), (''streamSid'', stream_sid (vars s'))]),
                 ResponseCancel] @ tail"
    by (simp add: s1_def)
  then show "\<exists>tail. actions (twilio_run E (FromAgent SpeechStarted # rest) s')
            = actions s' @ [ClientSendJson (JObject
                   [(''event'', JString ''clear''), (''streamSid'', stream_sid (vars s'))]),
                 ResponseCancel] @ tail"
    by (rule exI)
next
  assume a: "\<not> over s' \<and> to_client s' = Running \<and> \<not> truthy (stream_sid (vars s'))
      \<and> io_fault E (actions s') ResponseCancel = None"
  define s1 where "s1 = s'\<lparr> actions := actions s' @ [ResponseCancel] \<rparr>"
  have "twilio_step E (FromAgent SpeechStarted) s' = s1"
    unfolding s1_def using a by (intro twilio_speech_started_no_stream) simp_all
  moreover obtain tail where "actions (twilio_run E rest s1) = actions s1 @ tail"
    using twilio_run_extends by blast
  ultimately have "actions (twilio_run E (FromAgent SpeechStarted # rest) s')
            = actions s' @ [ResponseCancel] @ tail"
    by (simp add: s1_def)
  then show "\<exists>tail. actions (twilio_run E (FromAgent SpeechStarted # rest) s')
            = actions s' @ [ResponseCancel] @ tail"
    by (rule exI)
qed

theorem barge_in_witness:
  "(\<exists>tail. actions (browser_run offline_env
        [FromAgent SpeechStarted, FromAgent (ResponseAudioDelta [0, 0])] browser_init)
      = [] @ [ClientSendJson (JObject [(''type'', JString ''clear_audio'')]), ResponseCancel] @ tail)
   \<and> (\<exists>tail. actions (twilio_run offline_env
        [FromAgent SpeechStarted, FromAgent (ResponseAudioDelta [0, 0])]
        (twilio_init\<lparr> vars := \<lparr> stream_sid = JString ''MZ1'', stream_start_event = True,
                                 start_time = 0 \<rparr> \<rparr>))
      = [] @ [ClientSendJson (JObject [(''event'', JString ''clear''),
                                       (''streamSid'', JString ''MZ1'')]), ResponseCancel] @ tail)
   \<and> (\<exists>tail. actions (twilio_run offline_env
        [FromAgent SpeechStarted, FromAgent (ResponseAudioDelta [0, 0])] twilio_init)
      = [] @ [ResponseCancel] @ tail)"
  using barge_in [of browser_init offline_env "[FromAgent (ResponseAudioDelta [0, 0])]"
      "twilio_init\<lparr> vars := \<lparr> stream_sid = JString ''MZ1'', stream_start_event = True,
                                 start_time = 0 \<rparr> \<rparr>"]
    barge_in [of browser_init offline_env "[FromAgent (ResponseAudioDelta [0, 0])]" twilio_init]
  by simp

text \<open>
  Claim C4 as stated fails in the telephony bridge before the start envelope: a media frame
  received first is forwarded (the gate is open), and the speech-started event that follows
  triggers the response-cancel only, with no clear signal to the client.
\<close>

theorem barge_in_counterexample:
  "actions (twilio_run offline_env
      [FromClient 5 (Text media_text), FromAgent SpeechStarted] twilio_init)
     = [InputAudioAppend (JString ''AAA=''), ResponseCancel]"
  by (simp add: twilio_step_def twilio_forward_to_azure_step_def twilio_media_def
      sample_b64decode_def sample_b64encode_def resample_FF perform_def)

end
